theory Spec2Isabelle
  imports Main
begin

section \<open>JSON values as the exporter sees them\<close>

text \<open>
  The raw schema is the result of \<^verbatim>\<open>res.json()\<close>: a tree of JSON values. A property
  that is absent reads as \<^verbatim>\<open>undefined\<close>; a possibly undefined value is a
  \<open>json option\<close> with \<open>None\<close> for \<^verbatim>\<open>undefined\<close>. Objects keep their entries in
  insertion order. The exporter never computes with numbers (it only tests them for
  truthiness, copies and prints them), so numbers are integers here: \<open>JNum n\<close> is the
  number that the integer literal \<open>n\<close> reads as. A literal beyond the range of a double
  reads as \<^verbatim>\<open>Infinity\<close>, which is no JSON value any more; the numbers of a schema are
  within the range.
\<close>

datatype json =
    JNull
  | JBool bool
  | JNum int
  | JStr string
  | JArr "json list"
  | JObj "(string \<times> json) list"

text \<open>\<^verbatim>\<open>x?.key\<close> for one of the fixed keys the exporter reads: only an object has them.\<close>

fun get_prop :: "json option \<Rightarrow> string \<Rightarrow> json option" where
  "get_prop (Some (JObj kvs)) k = map_of kvs k"
| "get_prop _ k = None"

text \<open>JavaScript truthiness.\<close>

fun truthy :: "json option \<Rightarrow> bool" where
  "truthy None = False"
| "truthy (Some JNull) = False"
| "truthy (Some (JBool b)) = b"
| "truthy (Some (JNum n)) = (n \<noteq> 0)"
| "truthy (Some (JStr s)) = (s \<noteq> [])"
| "truthy (Some (JArr xs)) = True"
| "truthy (Some (JObj kvs)) = True"

section \<open>Raw schema\<close>

record raw_field =
  field_id :: string
  field_name :: string
  field_type :: string
  field_description :: "string option"
  field_options :: "json option"

record raw_table =
  table_id :: string
  table_name :: string
  table_description :: "string option"
  table_primaryFieldId :: string
  table_fields :: "raw_field list"

section \<open>Field classifier\<close>

definition NON_CREATABLE_TYPES :: "string list" where
  "NON_CREATABLE_TYPES = [''formula'', ''rollup'', ''multipleLookupValues'', ''count'']"

definition AUTO_SYSTEM_TYPES :: "string list" where
  "AUTO_SYSTEM_TYPES =
     [''autoNumber'', ''createdTime'', ''lastModifiedTime'', ''createdBy'', ''lastModifiedBy'']"

definition LINK_TYPE :: string where
  "LINK_TYPE = ''multipleRecordLinks''"

datatype category = Creatable | Link | Manual | AutoSystem | InverseLink

definition classifyField :: "raw_field \<Rightarrow> category" where
  "classifyField field =
     (if field_type field \<in> set NON_CREATABLE_TYPES then Manual
      else if field_type field \<in> set AUTO_SYSTEM_TYPES then AutoSystem
      else if field_type field = LINK_TYPE then
        (if truthy (get_prop (field_options field) ''isReversed'') then InverseLink else Link)
      else Creatable)"

section \<open>Strings\<close>

text \<open>
  Strings are byte strings in UTF-8. The three characters of the source text outside ASCII
  are written out as their bytes.
\<close>

definition nl :: string where
  "nl = [CHR 0x0A]"

definition dq :: string where
  "dq = [CHR 0x22]"

definition apostrophe :: string where
  "apostrophe = [CHR 0x27]"

definition em_dash :: string where
  "em_dash = [CHR 0xE2, CHR 0x80, CHR 0x94]"

definition warning_sign :: string where
  "warning_sign = [CHR 0xE2, CHR 0x9A, CHR 0xA0, CHR 0xEF, CHR 0xB8, CHR 0x8F]"

text \<open>\<^verbatim>\<open>Array.prototype.join\<close> on an array of strings.\<close>

fun join :: "string \<Rightarrow> string list \<Rightarrow> string" where
  "join sep [] = []"
| "join sep [x] = x"
| "join sep (x # y # ys) = x @ sep @ join sep (y # ys)"

text \<open>
  \<^verbatim>\<open>String(n)\<close> for a number. \<open>JNum n\<close> stands for the double that \<^verbatim>\<open>JSON.parse\<close> yields
  for the integer literal \<open>n\<close>: \<open>n\<close> itself when it has at most 53 significant bits, and
  the double nearest to it in general. The digits printed are the shortest decimal that
  reads back as the same double, the nearest such one when there are several; up to 21
  digits they are padded with zeros, beyond that the number is printed with an exponent.
  Below \<open>2 ^ 53\<close> this is the decimal notation of \<open>n\<close>.
\<close>

function show_digits :: "int \<Rightarrow> string" where
  "show_digits n =
     (if n < 10 then [char_of (48 + n)]
      else show_digits (n div 10) @ [char_of (48 + n mod 10)])"
  by pat_completeness auto

termination
  by (relation "measure nat") auto

declare show_digits.simps [simp del]

function bit_length :: "int \<Rightarrow> nat" where
  "bit_length n = (if n \<le> 0 then 0 else Suc (bit_length (n div 2)))"
  by pat_completeness auto

termination
  by (relation "measure nat") auto

declare bit_length.simps [simp del]

text \<open>Rounding to 53 significant bits, to nearest, a tie to the even significand.\<close>

definition round_to_double :: "int \<Rightarrow> int" where
  "round_to_double n =
     (let sh = bit_length n - 53;
          q = n div 2 ^ sh;
          r = n mod 2 ^ sh
      in (if 2 ^ sh < 2 * r \<or> (2 * r = 2 ^ sh \<and> odd q) then q + 1 else q) * 2 ^ sh)"

text \<open>
  The shortest decimal of the double \<open>d\<close>: for \<open>k = 1, 2, \<dots>\<close> significant digits, the
  two neighbours of \<open>d\<close> with \<open>k\<close> digits followed by zeros are tried; of two that read
  back as \<open>d\<close> the nearer one is taken, and the even one when they are equally near.
  Seventeen digits always suffice.
\<close>

fun shortest_decimal :: "nat list \<Rightarrow> int \<Rightarrow> int" where
  "shortest_decimal [] d = d"
| "shortest_decimal (k # ks) d =
     (let q = 10 ^ (length (show_digits d) - k);
          lo = d div q * q;
          hi = lo + q
      in if round_to_double lo = d then
           (if round_to_double hi = d
               \<and> (hi - d < d - lo \<or> (hi - d = d - lo \<and> odd (d div q)))
            then hi else lo)
         else if round_to_double hi = d then hi
         else shortest_decimal ks d)"

text \<open>A double has no value of \<open>2 ^ 1024\<close> or more: such a literal reads as \<^verbatim>\<open>Infinity\<close>.\<close>

definition show_number :: "int \<Rightarrow> string" where
  "show_number i =
     (let d = round_to_double \<bar>i\<bar>;
          sign = (if i < 0 then ''-'' else [])
      in if 1024 < bit_length d then sign @ ''Infinity''
         else
           (let digits = show_digits (shortest_decimal [1..<18] d);
                n = length digits
            in if n \<le> 21 then sign @ digits
               else
                 (case rev (dropWhile (\<lambda>c. c = CHR ''0'') (rev digits)) of
                    [] \<Rightarrow> sign @ digits
                  | c # cs \<Rightarrow>
                      sign @ c # (if cs = [] then [] else CHR ''.'' # cs) @ ''e+''
                        @ show_digits (int n - 1))))"

text \<open>The exception of the exporter's own code: a \<^verbatim>\<open>TypeError\<close>.\<close>

datatype error = TypeError

fun map_result :: "('a \<Rightarrow> error + 'b) \<Rightarrow> 'a list \<Rightarrow> error + 'b list" where
  "map_result f [] = Inr []"
| "map_result f (x # xs) =
     (case f x of
        Inl e \<Rightarrow> Inl e
      | Inr y \<Rightarrow> (case map_result f xs of Inl e \<Rightarrow> Inl e | Inr ys \<Rightarrow> Inr (y # ys)))"

text \<open>
  \<^verbatim>\<open>String(v)\<close>, which a template literal and a property key apply. An array prints its
  elements joined by commas, with nothing for \<^verbatim>\<open>null\<close>. An object prints as
  \<^verbatim>\<open>[object Object]\<close> through the inherited \<^verbatim>\<open>toString\<close>; an object that owns a key
  \<^verbatim>\<open>toString\<close> hides that method behind a value that cannot be called, and the conversion
  throws.
\<close>

fun js_to_string :: "json \<Rightarrow> error + string"
  and js_join :: "json list \<Rightarrow> error + string" where
  "js_to_string JNull = Inr ''null''"
| "js_to_string (JBool b) = Inr (if b then ''true'' else ''false'')"
| "js_to_string (JNum n) = Inr (show_number n)"
| "js_to_string (JStr s) = Inr s"
| "js_to_string (JArr xs) = js_join xs"
| "js_to_string (JObj kvs) =
     (if ''toString'' \<in> set (map fst kvs) then Inl TypeError else Inr ''[object Object]'')"
| "js_join [] = Inr []"
| "js_join [x] = (if x = JNull then Inr [] else js_to_string x)"
| "js_join (x # y # ys) =
     (case (if x = JNull then Inr [] else js_to_string x) of
        Inl e \<Rightarrow> Inl e
      | Inr s \<Rightarrow>
          (case js_join (y # ys) of
             Inl e \<Rightarrow> Inl e
           | Inr r \<Rightarrow> Inr (s @ '','' @ r)))"

definition template :: "json option \<Rightarrow> error + string" where
  "template v = (case v of None \<Rightarrow> Inr ''undefined'' | Some x \<Rightarrow> js_to_string x)"

text \<open>
  \<^verbatim>\<open>str.charAt(0).toUpperCase() + str.slice(1)\<close>. The exporter calls it on type names,
  which are ASCII; a first byte outside \<^verbatim>\<open>a\<close>..\<^verbatim>\<open>z\<close> is kept.
\<close>

definition to_upper_char :: "char \<Rightarrow> char" where
  "to_upper_char c =
     (if 97 \<le> (of_char c :: nat) \<and> (of_char c :: nat) \<le> 122
      then char_of ((of_char c :: nat) - 32) else c)"

fun capitalize :: "string \<Rightarrow> string" where
  "capitalize [] = []"
| "capitalize (c # cs) = to_upper_char c # cs"

text \<open>\<^verbatim>\<open>s.split("\n")[0]\<close>: the text before the first line feed.\<close>

definition first_line :: "string \<Rightarrow> string" where
  "first_line s = takeWhile (\<lambda>c. c \<noteq> CHR 0x0A) s"

text \<open>
  \<^verbatim>\<open>[a, b, c].filter(Boolean)\<close> on an array whose entries are strings or \<^verbatim>\<open>null\<close>:
  \<^verbatim>\<open>null\<close> and the empty string go.
\<close>

fun filter_Boolean :: "string option list \<Rightarrow> string list" where
  "filter_Boolean [] = []"
| "filter_Boolean (None # xs) = filter_Boolean xs"
| "filter_Boolean (Some s # xs) = (if s = [] then filter_Boolean xs else s # filter_Boolean xs)"

section \<open>Placeholder instruction builder\<close>

definition typeLabel :: "raw_field \<Rightarrow> string" where
  "typeLabel field =
     (if field_type field = ''multipleLookupValues'' then ''Lookup''
      else capitalize (field_type field))"

text \<open>
  One entry of the arrays in the \<^verbatim>\<open>rollup\<close> and \<^verbatim>\<open>multipleLookupValues\<close> cases:
  \<^verbatim>\<open>v ? `label${v}` : null\<close>.
\<close>

definition summary_line :: "string \<Rightarrow> json option \<Rightarrow> error + string option" where
  "summary_line label v =
     (if truthy v then map_sum id (\<lambda>s. Some (label @ s)) (template v) else Inr None)"

text \<open>The \<^verbatim>\<open>switch (field.type)\<close> that sets \<^verbatim>\<open>configSummary\<close>.\<close>

definition configSummary :: "raw_field \<Rightarrow> error + string" where
  "configSummary field =
     (let opts = field_options field in
      if field_type field = ''formula'' then
        (if truthy (get_prop opts ''formula'')
         then map_sum id (\<lambda>s. ''Formula: '' @ s) (template (get_prop opts ''formula''))
         else Inr (''Formula: (not available '' @ em_dash @ '' check the original base)''))
      else if field_type field = ''rollup'' then
        map_sum id
          (\<lambda>ls. let s = join nl (filter_Boolean ls)
                in if s = [] then ''(check the original base for rollup configuration)'' else s)
          (map_result id
             [summary_line ''Summarize field: '' (get_prop opts ''fieldIdInLinkedTable''),
              summary_line ''From linked record field: '' (get_prop opts ''recordLinkFieldId''),
              summary_line ''Aggregation: '' (get_prop (get_prop opts ''result'') ''formula'')])
      else if field_type field = ''multipleLookupValues'' then
        map_sum id
          (\<lambda>ls. let s = join nl (filter_Boolean ls)
                in if s = [] then ''(check the original base for lookup configuration)'' else s)
          (map_result id
             [summary_line ''Lookup field: '' (get_prop opts ''fieldIdInLinkedTable''),
              summary_line ''From linked record field: '' (get_prop opts ''recordLinkFieldId'')])
      else if field_type field = ''count'' then
        (if truthy (get_prop opts ''recordLinkFieldId'')
         then map_sum id (\<lambda>s. ''Count records from linked field: '' @ s)
                (template (get_prop opts ''recordLinkFieldId''))
         else Inr ''(check the original base for count configuration)'')
      else Inr ''(check the original base for configuration)'')"

record instructions =
  description :: string
  cellInstructions :: string

text \<open>The two template literals that make up the result.\<close>

definition description_text :: "string \<Rightarrow> string \<Rightarrow> string" where
  "description_text label summary =
     warning_sign @ '' MANUAL SETUP REQUIRED '' @ em_dash @ '' '' @ label @ '': ''
       @ first_line summary"

definition cellInstructions_text :: "string \<Rightarrow> string \<Rightarrow> string" where
  "cellInstructions_text label summary =
     join nl
       [ warning_sign @ '' MANUAL SETUP REQUIRED'',
         [],
         ''Field type: '' @ label @ '' (currently Long Text '' @ em_dash
           @ '' you must change it)'',
         [],
         summary,
         [],
         ''Steps:'',
         ''1. Click this field'' @ apostrophe @ ''s column header'',
         ''2. Select '' @ dq @ ''Customize field type'' @ dq,
         ''3. Change the type from '' @ dq @ ''Long text'' @ dq @ '' to '' @ dq @ label @ dq,
         ''4. Configure using the information above'',
         ''5. Click '' @ dq @ ''Save'' @ dq,
         ''6. Delete this instruction row when you'' @ apostrophe
           @ ''re done with ALL fields in this table'' ]"

definition buildManualInstructions :: "raw_field \<Rightarrow> error + instructions" where
  "buildManualInstructions field =
     map_sum id
       (\<lambda>summary.
          \<lparr> description = description_text (typeLabel field) summary,
            cellInstructions = cellInstructions_text (typeLabel field) summary \<rparr>)
       (configSummary field)"

text \<open>
  Where the builder throws: a sub-field it prints is an object that owns a key
  \<^verbatim>\<open>toString\<close>, or an array with such an object in it. \<open>printable\<close> values are all the
  others; the schema API delivers strings for the sub-fields. Each type prints its own
  sub-fields only, and a falsy sub-field is not printed.
\<close>

fun printable :: "json \<Rightarrow> bool"
  and printable_list :: "json list \<Rightarrow> bool" where
  "printable (JArr xs) = printable_list xs"
| "printable (JObj kvs) = (''toString'' \<notin> set (map fst kvs))"
| "printable JNull = True"
| "printable (JBool b) = True"
| "printable (JNum n) = True"
| "printable (JStr s) = True"
| "printable_list [] = True"
| "printable_list (x # xs) = (printable x \<and> printable_list xs)"

definition printable_prop :: "json option \<Rightarrow> string \<Rightarrow> bool" where
  "printable_prop opts k = (case get_prop opts k of None \<Rightarrow> True | Some v \<Rightarrow> printable v)"

definition summary_printable :: "raw_field \<Rightarrow> bool" where
  "summary_printable field =
     (let opts = field_options field in
      if field_type field = ''formula'' then printable_prop opts ''formula''
      else if field_type field = ''rollup'' then
        printable_prop opts ''fieldIdInLinkedTable''
        \<and> printable_prop opts ''recordLinkFieldId''
        \<and> printable_prop (get_prop opts ''result'') ''formula''
      else if field_type field = ''multipleLookupValues'' then
        printable_prop opts ''fieldIdInLinkedTable''
        \<and> printable_prop opts ''recordLinkFieldId''
      else if field_type field = ''count'' then printable_prop opts ''recordLinkFieldId''
      else True)"

section \<open>Schema normalizer: first pass\<close>

text \<open>
  The clean field object. A property that a category does not set, or sets to
  \<^verbatim>\<open>undefined\<close>, is \<open>None\<close>: a read returns \<^verbatim>\<open>undefined\<close> in both cases and
  \<^verbatim>\<open>JSON.stringify\<close> writes neither. \<open>linkedTableName\<close> is a \<open>js_value\<close>, since a lookup
  in the plain object \<^verbatim>\<open>tableIdToName\<close> can also return a member of \<^verbatim>\<open>Object.prototype\<close>.
\<close>

datatype js_value = Value "json option" | ObjectPrototypeMember string

record clean_field =
  originalId :: string
  name :: string
  ftype :: string
  cf_description :: string
  options :: "json option"
  linkedTableId :: "json option"
  prefersSingleRecordLink :: "json option"
  manualType :: "string option"
  manualDescription :: "string option"
  manualCellInstructions :: "string option"
  originalOptions :: "json option"
  linkedTableName :: js_value

record clean_table =
  tbl_originalId :: string
  tbl_name :: string
  tbl_description :: string
  primaryFieldId :: string
  creatableFields :: "clean_field list"
  linkFields :: "clean_field list"
  manualFields :: "clean_field list"
  autoSystemFields :: "clean_field list"
  inverseLinkFields :: "clean_field list"

record schema =
  schema_name :: string
  exportedAt :: string
  tableCount :: nat
  tables :: "clean_table list"

text \<open>
  \<^verbatim>\<open>JSON.parse(JSON.stringify(v))\<close> on a value that came out of \<^verbatim>\<open>JSON.parse\<close>: a
  deep copy.
\<close>

fun json_clone :: "json \<Rightarrow> json" where
  "json_clone JNull = JNull"
| "json_clone (JBool b) = JBool b"
| "json_clone (JNum n) = JNum n"
| "json_clone (JStr s) = JStr s"
| "json_clone (JArr xs) = JArr (map json_clone xs)"
| "json_clone (JObj kvs) = JObj (map (\<lambda>kv. (fst kv, json_clone (snd kv))) kvs)"

text \<open>
  The callback \<^verbatim>\<open>({ name, color }) => { const c = { name }; if (color) c.color = color;
  return c; }\<close>. Destructuring \<^verbatim>\<open>null\<close> throws; any other value has the two properties
  or reads them as \<^verbatim>\<open>undefined\<close>. A \<^verbatim>\<open>name\<close> that is \<^verbatim>\<open>undefined\<close> is an absent
  entry of the result, as for the clean field.
\<close>

definition clean_choice :: "json \<Rightarrow> error + json" where
  "clean_choice ch =
     (if ch = JNull then Inl TypeError
      else Inr (JObj
        ((case get_prop (Some ch) ''name'' of None \<Rightarrow> [] | Some n \<Rightarrow> [(''name'', n)])
         @ (case get_prop (Some ch) ''color'' of
              None \<Rightarrow> []
            | Some c \<Rightarrow> if truthy (Some c) then [(''color'', c)] else []))))"

text \<open>Assignment to a property of an object: an existing key keeps its place.\<close>

fun set_entry :: "string \<Rightarrow> json \<Rightarrow> (string \<times> json) list \<Rightarrow> (string \<times> json) list" where
  "set_entry k v [] = [(k, v)]"
| "set_entry k v (p # ps) = (if fst p = k then (k, v) # ps else p # set_entry k v ps)"

text \<open>
  The copy of \<^verbatim>\<open>field.options\<close> with the choice identifiers stripped. \<^verbatim>\<open>choices.map\<close>
  exists on an array only; on any other truthy value the call throws.
\<close>

definition clean_options :: "json \<Rightarrow> error + json" where
  "clean_options opts =
     (let c = json_clone opts in
      if truthy (get_prop (Some c) ''choices'') then
        (case (c, get_prop (Some c) ''choices'') of
           (JObj kvs, Some (JArr chs)) \<Rightarrow>
             (case map_result clean_choice chs of
                Inl e \<Rightarrow> Inl e
              | Inr chs' \<Rightarrow> Inr (JObj (set_entry ''choices'' (JArr chs') kvs)))
         | _ \<Rightarrow> Inl TypeError)
      else Inr c)"

definition cleanField :: "raw_field \<Rightarrow> error + clean_field" where
  "cleanField field =
     (case (case field_options field of
              None \<Rightarrow> Inr None
            | Some opts \<Rightarrow>
                if truthy (Some opts) then map_sum id Some (clean_options opts)
                else Inr None) of
        Inl e \<Rightarrow> Inl e
      | Inr os \<Rightarrow> Inr
          \<lparr> originalId = field_id field,
            name = field_name field,
            ftype = field_type field,
            cf_description =
              (case field_description field of None \<Rightarrow> [] | Some d \<Rightarrow> d),
            options = os,
            linkedTableId = None,
            prefersSingleRecordLink = None,
            manualType = None,
            manualDescription = None,
            manualCellInstructions = None,
            originalOptions = None,
            linkedTableName = Value None \<rparr>)"

text \<open>
  The \<^verbatim>\<open>switch (category)\<close>: what each case adds to the clean field. Only the case
  \<^verbatim>\<open>manual\<close> calls code that can throw.
\<close>

definition decorate :: "category \<Rightarrow> raw_field \<Rightarrow> clean_field \<Rightarrow> error + clean_field" where
  "decorate cat field cf =
     (case cat of
        Link \<Rightarrow> Inr
          (cf \<lparr> linkedTableId := get_prop (field_options field) ''linkedTableId'',
                prefersSingleRecordLink :=
                  (if truthy (get_prop (field_options field) ''prefersSingleRecordLink'')
                   then get_prop (field_options field) ''prefersSingleRecordLink''
                   else Some (JBool False)) \<rparr>)
      | Manual \<Rightarrow>
          map_sum id
            (\<lambda>ins.
               cf \<lparr> manualType := Some (typeLabel field),
                    manualDescription := Some (description ins),
                    manualCellInstructions := Some (cellInstructions ins),
                    originalOptions :=
                      (if truthy (field_options field) then field_options field
                       else Some (JObj [])) \<rparr>)
            (buildManualInstructions field)
      | _ \<Rightarrow> Inr cf)"

text \<open>The five arrays of one table, and the \<^verbatim>\<open>push\<close> of the \<^verbatim>\<open>switch\<close>.\<close>

record partitions =
  p_creatable :: "clean_field list"
  p_link :: "clean_field list"
  p_manual :: "clean_field list"
  p_inverseLink :: "clean_field list"
  p_autoSystem :: "clean_field list"

definition no_fields :: partitions where
  "no_fields = \<lparr> p_creatable = [], p_link = [], p_manual = [], p_inverseLink = [],
                 p_autoSystem = [] \<rparr>"

definition push :: "category \<Rightarrow> clean_field \<Rightarrow> partitions \<Rightarrow> partitions" where
  "push cat cf ps =
     (case cat of
        Creatable \<Rightarrow> ps \<lparr> p_creatable := p_creatable ps @ [cf] \<rparr>
      | Link \<Rightarrow> ps \<lparr> p_link := p_link ps @ [cf] \<rparr>
      | Manual \<Rightarrow> ps \<lparr> p_manual := p_manual ps @ [cf] \<rparr>
      | AutoSystem \<Rightarrow> ps \<lparr> p_autoSystem := p_autoSystem ps @ [cf] \<rparr>
      | InverseLink \<Rightarrow> ps \<lparr> p_inverseLink := p_inverseLink ps @ [cf] \<rparr>)"

text \<open>The array of a category, among the five of the loop and among the five of a table.\<close>

definition part :: "category \<Rightarrow> partitions \<Rightarrow> clean_field list" where
  "part c ps =
     (case c of
        Creatable \<Rightarrow> p_creatable ps
      | Link \<Rightarrow> p_link ps
      | Manual \<Rightarrow> p_manual ps
      | AutoSystem \<Rightarrow> p_autoSystem ps
      | InverseLink \<Rightarrow> p_inverseLink ps)"

definition fields_of :: "category \<Rightarrow> clean_table \<Rightarrow> clean_field list" where
  "fields_of c t =
     (case c of
        Creatable \<Rightarrow> creatableFields t
      | Link \<Rightarrow> linkFields t
      | Manual \<Rightarrow> manualFields t
      | AutoSystem \<Rightarrow> autoSystemFields t
      | InverseLink \<Rightarrow> inverseLinkFields t)"

text \<open>
  The category read back from a clean field: its type decides as in \<open>classifyField\<close>, and
  of the two kinds of link field only the forward one got \<^verbatim>\<open>prefersSingleRecordLink\<close>.
\<close>

definition category_of :: "clean_field \<Rightarrow> category" where
  "category_of cf =
     (if ftype cf \<in> set NON_CREATABLE_TYPES then Manual
      else if ftype cf \<in> set AUTO_SYSTEM_TYPES then AutoSystem
      else if ftype cf = LINK_TYPE then
        (if prefersSingleRecordLink cf = None then InverseLink else Link)
      else Creatable)"

text \<open>The normalized record of one raw field, as it is pushed.\<close>

definition normalizeField :: "raw_field \<Rightarrow> error + clean_field" where
  "normalizeField field =
     (case cleanField field of
        Inl e \<Rightarrow> Inl e
      | Inr cf \<Rightarrow> decorate (classifyField field) field cf)"

text \<open>The loop \<^verbatim>\<open>for (const field of table.fields)\<close>.\<close>

fun process_fields :: "partitions \<Rightarrow> raw_field list \<Rightarrow> error + partitions" where
  "process_fields ps [] = Inr ps"
| "process_fields ps (field # rest) =
     (case normalizeField field of
        Inl e \<Rightarrow> Inl e
      | Inr cf \<Rightarrow> process_fields (push (classifyField field) cf ps) rest)"

definition process_table :: "raw_table \<Rightarrow> error + clean_table" where
  "process_table table =
     (case process_fields no_fields (table_fields table) of
        Inl e \<Rightarrow> Inl e
      | Inr ps \<Rightarrow> Inr
          \<lparr> tbl_originalId = table_id table,
            tbl_name = table_name table,
            tbl_description =
              (case table_description table of None \<Rightarrow> [] | Some d \<Rightarrow> d),
            primaryFieldId = table_primaryFieldId table,
            creatableFields = p_creatable ps,
            linkFields = p_link ps,
            manualFields = p_manual ps,
            autoSystemFields = p_autoSystem ps,
            inverseLinkFields = p_inverseLink ps \<rparr>)"

text \<open>
  Where the exporter throws. In the first pass, \<^verbatim>\<open>choices.map\<close> with its destructuring
  callback runs through when \<^verbatim>\<open>options.choices\<close> is falsy or an array without \<^verbatim>\<open>null\<close>
  entries, and the instruction builder when the sub-fields it prints are printable. In the
  second pass, the \<^verbatim>\<open>linkedTableId\<close> of a link field becomes a property key, which is a
  conversion to a string. The schema API delivers arrays of choice objects and strings for
  the identifiers, so the fields of a base are well formed.
\<close>

definition choices_well_formed :: "raw_field \<Rightarrow> bool" where
  "choices_well_formed field =
     (case get_prop (field_options field) ''choices'' of
        None \<Rightarrow> True
      | Some (JArr chs) \<Rightarrow> JNull \<notin> set chs
      | Some v \<Rightarrow> \<not> truthy (Some v))"

definition well_formed :: "raw_field \<Rightarrow> bool" where
  "well_formed field =
     (choices_well_formed field
      \<and> summary_printable field
      \<and> (if classifyField field = Link
         then printable_prop (field_options field) ''linkedTableId'' else True))"

section \<open>Schema normalizer: resolution passes\<close>

text \<open>
  \<^verbatim>\<open>tableIdToName\<close> is a plain object: an assignment under the key \<^verbatim>\<open>__proto__\<close> with a
  string value changes nothing, and a key the object does not own is looked up in
  \<^verbatim>\<open>Object.prototype\<close>.
\<close>

definition OBJECT_PROTOTYPE_KEYS :: "string list" where
  "OBJECT_PROTOTYPE_KEYS =
     [''constructor'', ''__defineGetter__'', ''__defineSetter__'', ''hasOwnProperty'',
      ''__lookupGetter__'', ''__lookupSetter__'', ''isPrototypeOf'', ''propertyIsEnumerable'',
      ''toString'', ''valueOf'', ''__proto__'', ''toLocaleString'']"

fun assign_name :: "(string \<times> string) list \<Rightarrow> string \<Rightarrow> string \<Rightarrow> (string \<times> string) list" where
  "assign_name [] k v = (if k = ''__proto__'' then [] else [(k, v)])"
| "assign_name (p # ps) k v =
     (if k = ''__proto__'' then p # ps
      else if fst p = k then (k, v) # ps
      else p # assign_name ps k v)"

text \<open>The loop \<^verbatim>\<open>for (const table of tables) tableIdToName[table.originalId] = table.name\<close>.\<close>

fun build_tableIdToName :: "(string \<times> string) list \<Rightarrow> clean_table list \<Rightarrow> (string \<times> string) list" where
  "build_tableIdToName m [] = m"
| "build_tableIdToName m (t # ts) =
     build_tableIdToName (assign_name m (tbl_originalId t) (tbl_name t)) ts"

definition lookup_name :: "(string \<times> string) list \<Rightarrow> string \<Rightarrow> js_value" where
  "lookup_name m k =
     (case map_of m k of
        Some v \<Rightarrow> Value (Some (JStr v))
      | None \<Rightarrow> if k \<in> set OBJECT_PROTOTYPE_KEYS then ObjectPrototypeMember k else Value None)"

fun js_truthy :: "js_value \<Rightarrow> bool" where
  "js_truthy (Value v) = truthy v"
| "js_truthy (ObjectPrototypeMember k) = True"

text \<open>
  \<^verbatim>\<open>tableIdToName[linkField.linkedTableId] || linkField.linkedTableId\<close>; the property key
  is the \<^verbatim>\<open>linkedTableId\<close> as a string.
\<close>

definition resolve_link :: "(string \<times> string) list \<Rightarrow> clean_field \<Rightarrow> error + clean_field" where
  "resolve_link m linkField =
     map_sum id
       (\<lambda>key. linkField \<lparr> linkedTableName :=
                 (if js_truthy (lookup_name m key) then lookup_name m key
                  else Value (linkedTableId linkField)) \<rparr>)
       (template (linkedTableId linkField))"

text \<open>
  \<^verbatim>\<open>String.prototype.replace\<close> with a string pattern: the first occurrence is replaced,
  and the replacement is a template in which \<^verbatim>\<open>$$\<close>, \<^verbatim>\<open>$&\<close>, \<^verbatim>\<open>$`\<close> and \<^verbatim>\<open>$'\<close> stand for
  a dollar sign, the match, the text before it and the text after it.
\<close>

fun split_at_first :: "string \<Rightarrow> string \<Rightarrow> (string \<times> string) option" where
  "split_at_first pat [] = (if pat = [] then Some ([], []) else None)"
| "split_at_first pat (c # cs) =
     (if take (length pat) (c # cs) = pat then Some ([], drop (length pat) (c # cs))
      else (case split_at_first pat cs of
              None \<Rightarrow> None
            | Some (pre, post) \<Rightarrow> Some (c # pre, post)))"

fun get_substitution :: "string \<Rightarrow> string \<Rightarrow> string \<Rightarrow> string \<Rightarrow> string" where
  "get_substitution matched pre post [] = []"
| "get_substitution matched pre post [c] = [c]"
| "get_substitution matched pre post (c # d # ds) =
     (if c = CHR 0x24 then
        (if d = CHR 0x24 then CHR 0x24 # get_substitution matched pre post ds
         else if d = CHR 0x26 then matched @ get_substitution matched pre post ds
         else if d = CHR 0x60 then pre @ get_substitution matched pre post ds
         else if d = CHR 0x27 then post @ get_substitution matched pre post ds
         else c # get_substitution matched pre post (d # ds))
      else c # get_substitution matched pre post (d # ds))"

definition js_replace :: "string \<Rightarrow> string \<Rightarrow> string \<Rightarrow> string" where
  "js_replace text pat replacement =
     (case split_at_first pat text of
        None \<Rightarrow> text
      | Some (pre, post) \<Rightarrow>
          pre @ get_substitution pat pre post replacement @ post)"

text \<open>
  The two instruction texts of the manual field being resolved; both get every
  replacement.
\<close>

type_synonym texts = "string \<times> string"

definition replace_both :: "string \<Rightarrow> string \<Rightarrow> texts \<Rightarrow> texts" where
  "replace_both pat replacement tx =
     (js_replace (fst tx) pat replacement, js_replace (snd tx) pat replacement)"

text \<open>
  First block: for every field \<^verbatim>\<open>f\<close> of \<^verbatim>\<open>[...t.creatableFields, ...t.linkFields]\<close> of
  every table whose \<^verbatim>\<open>originalId\<close> is the \<^verbatim>\<open>recordLinkFieldId\<close>. Under that test the
  pattern handed to \<^verbatim>\<open>replace\<close>, the \<^verbatim>\<open>recordLinkFieldId\<close>, is the string \<^verbatim>\<open>f.originalId\<close>.
\<close>

fun replace_link_refs :: "json \<Rightarrow> clean_field list \<Rightarrow> texts \<Rightarrow> texts" where
  "replace_link_refs rid [] tx = tx"
| "replace_link_refs rid (f # fs) tx =
     replace_link_refs rid fs
       (if JStr (originalId f) = rid
        then replace_both (originalId f) (dq @ name f @ dq @ '' field'') tx
        else tx)"

fun resolve_recordLinkFieldId :: "json \<Rightarrow> clean_table list \<Rightarrow> texts \<Rightarrow> texts" where
  "resolve_recordLinkFieldId rid [] tx = tx"
| "resolve_recordLinkFieldId rid (t # ts) tx =
     resolve_recordLinkFieldId rid ts
       (replace_link_refs rid (creatableFields t @ linkFields t) tx)"

text \<open>
  Second block: for every field \<^verbatim>\<open>f\<close> of \<^verbatim>\<open>[...t.linkFields, ...t.inverseLinkFields]\<close> of
  every table with \<^verbatim>\<open>f.originalId === linkedTableId && f.linkedTableId\<close>, where the
  variable \<^verbatim>\<open>linkedTableId\<close> holds the \<^verbatim>\<open>recordLinkFieldId\<close>. The pattern handed to
  \<^verbatim>\<open>replace\<close>, the \<^verbatim>\<open>fieldIdInLinkedTable\<close>, is the string \<^verbatim>\<open>linkedField.originalId\<close>.
\<close>

definition replace_linked_field :: "clean_table list \<Rightarrow> json \<Rightarrow> clean_field \<Rightarrow> texts \<Rightarrow> texts" where
  "replace_linked_field all_tables fid f tx =
     (case find (\<lambda>tt. Some (JStr (tbl_originalId tt)) = linkedTableId f) all_tables of
        None \<Rightarrow> tx
      | Some linkedTable \<Rightarrow>
          (case find (\<lambda>ff. JStr (originalId ff) = fid)
                  (creatableFields linkedTable @ linkFields linkedTable
                     @ manualFields linkedTable) of
             None \<Rightarrow> tx
           | Some linkedField \<Rightarrow>
               replace_both (originalId linkedField)
                 (dq @ name linkedField @ dq @ '' in '' @ dq @ tbl_name linkedTable @ dq) tx))"

fun replace_field_refs :: "clean_table list \<Rightarrow> json option \<Rightarrow> json \<Rightarrow> clean_field list \<Rightarrow> texts \<Rightarrow> texts" where
  "replace_field_refs all_tables rid fid [] tx = tx"
| "replace_field_refs all_tables rid fid (f # fs) tx =
     replace_field_refs all_tables rid fid fs
       (if Some (JStr (originalId f)) = rid \<and> truthy (linkedTableId f)
        then replace_linked_field all_tables fid f tx
        else tx)"

fun resolve_fieldIdInLinkedTable :: "clean_table list \<Rightarrow> json option \<Rightarrow> json \<Rightarrow> clean_table list \<Rightarrow> texts \<Rightarrow> texts" where
  "resolve_fieldIdInLinkedTable all_tables rid fid [] tx = tx"
| "resolve_fieldIdInLinkedTable all_tables rid fid (t # ts) tx =
     resolve_fieldIdInLinkedTable all_tables rid fid ts
       (replace_field_refs all_tables rid fid (linkFields t @ inverseLinkFields t) tx)"

text \<open>
  The body of \<^verbatim>\<open>for (const manualField of table.manualFields)\<close>, on the pair of
  \<^verbatim>\<open>manualCellInstructions\<close> and \<^verbatim>\<open>manualDescription\<close>.
\<close>

definition resolve_texts :: "clean_table list \<Rightarrow> json option \<Rightarrow> texts \<Rightarrow> texts" where
  "resolve_texts all_tables oo tx =
     (let rid = get_prop oo ''recordLinkFieldId'';
          fid = get_prop oo ''fieldIdInLinkedTable'';
          tx1 = (case rid of
                   None \<Rightarrow> tx
                 | Some r \<Rightarrow>
                     if truthy rid then resolve_recordLinkFieldId r all_tables tx else tx)
      in (case fid of
            None \<Rightarrow> tx1
          | Some fi \<Rightarrow>
              if truthy fid then resolve_fieldIdInLinkedTable all_tables rid fi all_tables tx1
              else tx1))"

text \<open>
  Every record in \<^verbatim>\<open>manualFields\<close> got both texts in the first pass; the last case
  is for records of the other categories, which this function is never applied to.
\<close>

definition resolve_manual :: "clean_table list \<Rightarrow> clean_field \<Rightarrow> clean_field" where
  "resolve_manual all_tables manualField =
     (case (manualCellInstructions manualField, manualDescription manualField) of
        (Some cell, Some descr) \<Rightarrow>
          (let tx = resolve_texts all_tables (originalOptions manualField) (cell, descr)
           in manualField \<lparr> manualCellInstructions := Some (fst tx),
                             manualDescription := Some (snd tx) \<rparr>)
      | _ \<Rightarrow> manualField)"

text \<open>
  The second loop over the tables. It writes \<^verbatim>\<open>linkedTableName\<close> and the two instruction
  texts and reads, of other fields, only \<^verbatim>\<open>originalId\<close>, \<^verbatim>\<open>name\<close> and
  \<^verbatim>\<open>linkedTableId\<close>, which it never writes: every read sees the first pass's value,
  so the loop is a map over the first pass's tables.
\<close>

definition resolve_table :: "(string \<times> string) list \<Rightarrow> clean_table list \<Rightarrow> clean_table \<Rightarrow> error + clean_table" where
  "resolve_table m all_tables t =
     map_sum id
       (\<lambda>lfs. t \<lparr> linkFields := lfs,
                  manualFields := map (resolve_manual all_tables) (manualFields t) \<rparr>)
       (map_result (resolve_link m) (linkFields t))"

text \<open>
  \<^verbatim>\<open>processSchema(rawSchema, baseName)\<close>: the \<^verbatim>\<open>map\<close> over the raw tables, then the
  loops that resolve the references. The clock reading of \<^verbatim>\<open>new Date().toISOString()\<close>
  is the parameter \<open>now\<close>.
\<close>

definition first_pass :: "raw_table list \<Rightarrow> error + clean_table list" where
  "first_pass rawTables = map_result process_table rawTables"

definition second_pass :: "clean_table list \<Rightarrow> error + clean_table list" where
  "second_pass ts = map_result (resolve_table (build_tableIdToName [] ts) ts) ts"

definition processSchema :: "string \<Rightarrow> raw_table list \<Rightarrow> string option \<Rightarrow> error + schema" where
  "processSchema now rawTables baseName =
     (case first_pass rawTables of
        Inl e \<Rightarrow> Inl e
      | Inr ts \<Rightarrow>
          map_sum id
            (\<lambda>resolved.
               \<lparr> schema_name =
                   (case baseName of
                      None \<Rightarrow> ''Airtable Base''
                    | Some n \<Rightarrow> if n = [] then ''Airtable Base'' else n),
                 exportedAt = now,
                 tableCount = length resolved,
                 tables = resolved \<rparr>)
            (second_pass ts))"

section \<open>The relay\<close>

text \<open>
  A request as the worker reads it: the method, the header lines and the body text.
  \<^verbatim>\<open>Headers.get\<close> compares names without regard to case and joins the values of
  repeated lines.
\<close>

record request =
  req_method :: string
  req_headers :: "(string \<times> string) list"
  req_body :: string

datatype body = NoBody | ErrorJson string | TextBody string

record response =
  resp_status :: nat
  resp_headers :: "(string \<times> string) list"
  resp_body :: body

record upstream_call =
  up_url :: string
  up_method :: string
  up_headers :: "(string \<times> string) list"
  up_body :: "string option"

text \<open>
  What the platform does for the worker: the upstream \<^verbatim>\<open>fetch\<close> either delivers a status
  and a body text or throws, and \<^verbatim>\<open>new Response\<close> throws, with some message, for a status
  it does not accept.
\<close>

datatype upstream_outcome = Fetched nat string | FetchFailed string

record platform =
  upstream :: "upstream_call \<Rightarrow> upstream_outcome"
  response_error :: "nat \<Rightarrow> string"

definition to_lower_char :: "char \<Rightarrow> char" where
  "to_lower_char c =
     (if 65 \<le> (of_char c :: nat) \<and> (of_char c :: nat) \<le> 90
      then char_of ((of_char c :: nat) + 32) else c)"

definition headers_get :: "(string \<times> string) list \<Rightarrow> string \<Rightarrow> string option" where
  "headers_get hs n =
     (case map snd (filter (\<lambda>h. map to_lower_char (fst h) = map to_lower_char n) hs) of
        [] \<Rightarrow> None
      | v # vs \<Rightarrow> Some (join '', '' (v # vs)))"

text \<open>\<^verbatim>\<open>x || d\<close> on a header value: \<^verbatim>\<open>null\<close> and the empty string give \<open>d\<close>.\<close>

definition or_else :: "string option \<Rightarrow> string \<Rightarrow> string" where
  "or_else v d = (case v of None \<Rightarrow> d | Some s \<Rightarrow> if s = [] then d else s)"

definition starts_with :: "string \<Rightarrow> string \<Rightarrow> bool" where
  "starts_with s p = (take (length p) s = p)"

definition isOriginAllowed :: "string list \<Rightarrow> string \<Rightarrow> bool" where
  "isOriginAllowed allowed origin = (''*'' \<in> set allowed \<or> origin \<in> set allowed)"

definition jsonResponse :: "string \<Rightarrow> nat \<Rightarrow> string \<Rightarrow> response" where
  "jsonResponse message status origin =
     \<lparr> resp_status = status,
       resp_headers =
         [(''Content-Type'', ''application/json''), (''Access-Control-Allow-Origin'', origin)],
       resp_body = ErrorJson message \<rparr>"

definition ALLOW_HEADERS :: string where
  "ALLOW_HEADERS = ''Content-Type, Authorization, X-Airtable-Target-Url, X-Airtable-Method''"

definition handlePreflight :: "string list \<Rightarrow> request \<Rightarrow> response" where
  "handlePreflight allowed request =
     (let origin = or_else (headers_get (req_headers request) ''Origin'') [] in
      if \<not> isOriginAllowed allowed origin
      then \<lparr> resp_status = 403, resp_headers = [], resp_body = NoBody \<rparr>
      else \<lparr> resp_status = 204,
             resp_headers =
               [(''Access-Control-Allow-Origin'', if origin = [] then ''*'' else origin),
                (''Access-Control-Allow-Methods'', ''POST, OPTIONS''),
                (''Access-Control-Allow-Headers'', ALLOW_HEADERS),
                (''Access-Control-Max-Age'', ''86400'')],
             resp_body = NoBody \<rparr>)"

text \<open>
  \<^verbatim>\<open>new Response(body, {status})\<close> with a string body throws for a status outside
  200..599 and for the statuses that allow no body.
\<close>

definition response_accepts :: "nat \<Rightarrow> bool" where
  "response_accepts st = (200 \<le> st \<and> st \<le> 599 \<and> st \<notin> {204, 205, 304})"

text \<open>
  The handler, with the constant \<^verbatim>\<open>ALLOWED_ORIGINS\<close> as the parameter \<open>allowed\<close>. It
  returns the upstream calls it issued next to the response.
\<close>

definition ALLOWED_ORIGINS :: "string list" where
  "ALLOWED_ORIGINS = [''*'']"

definition forward :: "platform \<Rightarrow> request \<Rightarrow> string \<Rightarrow> string \<Rightarrow> string \<Rightarrow> upstream_call list \<times> response" where
  "forward pf request origin targetUrl airtableMethod =
     (let authHeader = headers_get (req_headers request) ''Authorization'';
          call =
            \<lparr> up_url = targetUrl,
              up_method = airtableMethod,
              up_headers =
                (''Content-Type'', ''application/json'')
                  # (case authHeader of
                       None \<Rightarrow> []
                     | Some a \<Rightarrow> if a = [] then [] else [(''Authorization'', a)]),
              up_body =
                (if map to_upper_char airtableMethod \<in> set [''POST'', ''PATCH'', ''PUT'']
                 then Some (req_body request) else None) \<rparr>
      in ([call],
          (case upstream pf call of
             Fetched st responseBody \<Rightarrow>
               if response_accepts st then
                 \<lparr> resp_status = st,
                   resp_headers =
                     [(''Content-Type'', ''application/json''),
                      (''Access-Control-Allow-Origin'', if origin = [] then ''*'' else origin),
                      (''Access-Control-Allow-Methods'', ''POST, OPTIONS''),
                      (''Access-Control-Allow-Headers'', ALLOW_HEADERS)],
                   resp_body = TextBody responseBody \<rparr>
               else jsonResponse (''Proxy fetch failed: '' @ response_error pf st) 502 origin
           | FetchFailed message \<Rightarrow>
               jsonResponse (''Proxy fetch failed: '' @ message) 502 origin)))"

definition worker_fetch :: "string list \<Rightarrow> platform \<Rightarrow> request \<Rightarrow> upstream_call list \<times> response" where
  "worker_fetch allowed pf request =
     (if req_method request = ''OPTIONS'' then ([], handlePreflight allowed request)
      else if req_method request \<noteq> ''POST''
        then ([], jsonResponse ''Method not allowed. Use POST.'' 405 ''*'')
      else
        (let origin = or_else (headers_get (req_headers request) ''Origin'') [] in
         if \<not> isOriginAllowed allowed origin
           then ([], jsonResponse ''Origin not allowed'' 403 ''*'')
         else
           (let targetUrl = headers_get (req_headers request) ''X-Airtable-Target-Url'';
                airtableMethod =
                  or_else (headers_get (req_headers request) ''X-Airtable-Method'') ''POST''
            in (case targetUrl of
                  None \<Rightarrow>
                    ([], jsonResponse
                       ''Invalid or missing X-Airtable-Target-Url. Must start with https://api.airtable.com/''
                       400 ''*'')
                | Some url \<Rightarrow>
                    if url = [] \<or> \<not> starts_with url ''https://api.airtable.com/''
                    then ([], jsonResponse
                       ''Invalid or missing X-Airtable-Target-Url. Must start with https://api.airtable.com/''
                       400 ''*'')
                    else forward pf request origin url airtableMethod))))"

text \<open>The handler as deployed.\<close>

definition fetch :: "platform \<Rightarrow> request \<Rightarrow> upstream_call list \<times> response" where
  "fetch = worker_fetch ALLOWED_ORIGINS"

text \<open>A platform for the examples: the upstream answers every call with 200.\<close>

definition example_platform :: platform where
  "example_platform =
     \<lparr> upstream = (\<lambda>call. Fetched 200 ''{}''), response_error = (\<lambda>st. ''invalid status'') \<rparr>"

section \<open>Example inputs\<close>

text \<open>
  A base with two tables. Table A has a text field, a number field, a single-select field
  and the inverse side of the link; table B has a text field, a link to A and a rollup
  over that link.
\<close>

definition mk_field :: "string \<Rightarrow> string \<Rightarrow> string \<Rightarrow> json option \<Rightarrow> raw_field" where
  "mk_field i n t os =
     \<lparr> field_id = i, field_name = n, field_type = t, field_description = None,
       field_options = os \<rparr>"

definition field_Score :: raw_field where
  "field_Score = mk_field ''fldScore'' ''Score'' ''number'' (Some (JObj [(''precision'', JNum 0)]))"

definition status_choices :: "json list" where
  "status_choices =
     [JObj [(''id'', JStr ''selTodo''), (''name'', JStr ''Todo''), (''color'', JStr ''blueLight2'')],
      JObj [(''id'', JStr ''selDone''), (''name'', JStr ''Done'')]]"

definition field_Status :: raw_field where
  "field_Status = mk_field ''fldStatus'' ''Status'' ''singleSelect''
     (Some (JObj [(''choices'', JArr status_choices)]))"

definition field_Bs :: raw_field where
  "field_Bs = mk_field ''fldBs'' ''Bs'' ''multipleRecordLinks''
     (Some (JObj [(''linkedTableId'', JStr ''tblB''), (''isReversed'', JBool True),
                  (''inverseLinkFieldId'', JStr ''fldOwner'')]))"

definition field_Owner :: raw_field where
  "field_Owner = mk_field ''fldOwner'' ''Owner'' ''multipleRecordLinks''
     (Some (JObj [(''linkedTableId'', JStr ''tblA''), (''isReversed'', JBool False),
                  (''prefersSingleRecordLink'', JBool True),
                  (''inverseLinkFieldId'', JStr ''fldBs'')]))"

definition field_Total :: raw_field where
  "field_Total = mk_field ''fldTotal'' ''Total'' ''rollup''
     (Some (JObj [(''fieldIdInLinkedTable'', JStr ''fldScore''),
                  (''recordLinkFieldId'', JStr ''fldOwner'')]))"

definition table_A :: raw_table where
  "table_A =
     \<lparr> table_id = ''tblA'', table_name = ''A'', table_description = None,
       table_primaryFieldId = ''fldNameA'',
       table_fields =
         [mk_field ''fldNameA'' ''Name'' ''singleLineText'' None, field_Score, field_Status,
          field_Bs] \<rparr>"

definition table_B :: raw_table where
  "table_B =
     \<lparr> table_id = ''tblB'', table_name = ''B'', table_description = None,
       table_primaryFieldId = ''fldNameB'',
       table_fields =
         [mk_field ''fldNameB'' ''Name'' ''singleLineText'' None, field_Owner, field_Total] \<rparr>"

definition example_tables :: "raw_table list" where
  "example_tables = [table_A, table_B]"

text \<open>
  The same base with one more field in table A: a lookup of the names of the linked
  records of B. The link it goes through, \<^verbatim>\<open>Bs\<close>, is the inverse side in table A.
\<close>

definition field_BNames :: raw_field where
  "field_BNames = mk_field ''fldBNames'' ''B names'' ''multipleLookupValues''
     (Some (JObj [(''recordLinkFieldId'', JStr ''fldBs''),
                  (''fieldIdInLinkedTable'', JStr ''fldNameB'')]))"

definition table_A_lookup :: raw_table where
  "table_A_lookup = table_A \<lparr> table_fields := table_fields table_A @ [field_BNames] \<rparr>"

definition lookup_tables :: "raw_table list" where
  "lookup_tables = [table_A_lookup, table_B]"

text \<open>Requests to the relay: a browser's preflight, and a call that names no method.\<close>

definition preflight_request :: request where
  "preflight_request =
     \<lparr> req_method = ''OPTIONS'',
       req_headers =
         [(''Origin'', ''https://example.github.io''),
          (''Access-Control-Request-Method'', ''POST'')],
       req_body = [] \<rparr>"

definition unnamed_method_request :: request where
  "unnamed_method_request =
     \<lparr> req_method = ''POST'',
       req_headers =
         [(''Origin'', ''https://example.github.io''),
          (''X-Airtable-Target-Url'', ''https://api.airtable.com/v0/meta/bases/app1/tables'')],
       req_body = ''{}'' \<rparr>"

definition foreign_target_request :: request where
  "foreign_target_request =
     \<lparr> req_method = ''POST'',
       req_headers =
         [(''Origin'', ''https://example.github.io''),
          (''X-Airtable-Target-Url'', ''https://evil.example/v0''),
          (''X-Airtable-Method'', ''GET'')],
       req_body = [] \<rparr>"

section \<open>Properties of the classifier\<close>

text \<open>
  C1. The classifier follows the decision table: \<open>Manual\<close> exactly for the four computed
  types, \<open>AutoSystem\<close> exactly for the five system types, \<open>InverseLink\<close> exactly for a
  \<^verbatim>\<open>multipleRecordLinks\<close> field whose \<^verbatim>\<open>options.isReversed\<close> is true, \<open>Link\<close> exactly for
  a \<^verbatim>\<open>multipleRecordLinks\<close> field that is not reversed, and \<open>Creatable\<close> for every other
  type. The test of \<^verbatim>\<open>isReversed\<close> is JavaScript truthiness, which for the boolean (or
  absent) flag of the schema API is being \<^verbatim>\<open>true\<close>. Two fields with the same type and the
  same options get the same category.
\<close>

theorem classifyField_decision_table:
  "(classifyField f = Manual \<longleftrightarrow>
      field_type f \<in> {''formula'', ''rollup'', ''multipleLookupValues'', ''count''})
   \<and> (classifyField f = AutoSystem \<longleftrightarrow>
      field_type f \<in> {''autoNumber'', ''createdTime'', ''lastModifiedTime'', ''createdBy'',
                       ''lastModifiedBy''})
   \<and> (classifyField f = InverseLink \<longleftrightarrow>
      field_type f = ''multipleRecordLinks'' \<and> truthy (get_prop (field_options f) ''isReversed''))
   \<and> (classifyField f = Link \<longleftrightarrow>
      field_type f = ''multipleRecordLinks''
      \<and> \<not> truthy (get_prop (field_options f) ''isReversed''))
   \<and> (classifyField f = Creatable \<longleftrightarrow>
      field_type f \<notin> {''formula'', ''rollup'', ''multipleLookupValues'', ''count'',
                       ''autoNumber'', ''createdTime'', ''lastModifiedTime'', ''createdBy'',
                       ''lastModifiedBy'', ''multipleRecordLinks''})
   \<and> (get_prop (field_options f) ''isReversed'' \<in> {None, Some (JBool False), Some (JBool True)} \<longrightarrow>
        (truthy (get_prop (field_options f) ''isReversed'')
           \<longleftrightarrow> get_prop (field_options f) ''isReversed'' = Some (JBool True)))
   \<and> (field_type g = field_type f \<and> field_options g = field_options f \<longrightarrow>
        classifyField g = classifyField f)"
  unfolding classifyField_def NON_CREATABLE_TYPES_def AUTO_SYSTEM_TYPES_def LINK_TYPE_def
  by auto

theorem classifyField_decision_table_witness:
  "get_prop (field_options field_Bs) ''isReversed'' = Some (JBool True)
   \<and> classifyField field_Bs = InverseLink
   \<and> classifyField field_Owner = Link
   \<and> classifyField field_Total = Manual
   \<and> classifyField field_Score = Creatable"
  using classifyField_decision_table [of field_Bs field_Bs]
    classifyField_decision_table [of field_Owner field_Owner]
    classifyField_decision_table [of field_Total field_Total]
    classifyField_decision_table [of field_Score field_Score]
  by (simp add: field_Bs_def field_Owner_def field_Total_def field_Score_def mk_field_def)

section \<open>Properties of the instruction builder\<close>

text \<open>Numbers in print: plain digits, padded digits, and the exponent from \<open>10 ^ 21\<close> on.\<close>

lemma show_number_examples:
  "show_number 42 = ''42''"
  "show_number (- 170) = ''-170''"
  "show_number (2 ^ 60) = ''1152921504606847000''"
  "show_number (10 ^ 21) = ''1e+21''"
  by code_simp+





lemma falsy_printable: "\<not> truthy (Some v) \<Longrightarrow> printable v"
  by (cases v) simp_all

lemma js_to_string_returns:
  "(\<exists>s. js_to_string v = Inr s) \<longleftrightarrow> printable v"
  "(\<exists>s. js_join xs = Inr s) \<longleftrightarrow> printable_list xs"
proof (induction v and xs rule: js_to_string_js_join.induct)
  case (9 x y ys)
  show ?case
  proof (cases "if x = JNull then Inr [] else js_to_string x")
    case (Inl e)
    then have "\<not> printable x" using 9(1) by (auto split: if_splits)
    then show ?thesis using Inl by simp
  next
    case (Inr s)
    then have "printable x" using 9(1) by (cases "x = JNull") auto
    moreover have "(\<exists>r. js_join (y # ys) = Inr r) \<longleftrightarrow> printable_list (y # ys)"
      by (rule 9(2) [OF Inr])
    ultimately show ?thesis using Inr
      by (cases "js_join (y # ys)") auto
  qed
qed auto

lemma template_returns:
  "(\<exists>s. template (get_prop opts k) = Inr s) \<longleftrightarrow> printable_prop opts k"
  using js_to_string_returns(1)
  by (auto simp add: printable_prop_def template_def split: option.splits)

lemma summary_line_returns:
  "(\<exists>l. summary_line label (get_prop opts k) = Inr l) \<longleftrightarrow> printable_prop opts k"
proof (cases "truthy (get_prop opts k)")
  case True
  then show ?thesis
    using template_returns [of opts k]
    by (cases "template (get_prop opts k)") (auto simp add: summary_line_def)
next
  case False
  then have "printable_prop opts k"
    by (auto simp add: printable_prop_def falsy_printable split: option.splits)
  then show ?thesis using False by (simp add: summary_line_def)
qed


lemma falsy_printable_prop: "\<not> truthy (get_prop opts k) \<Longrightarrow> printable_prop opts k"
  by (auto simp add: printable_prop_def falsy_printable split: option.splits)

text \<open>The summary is computed exactly when the sub-fields of the type are printable.\<close>

lemma configSummary_returns:
  "(\<exists>s. configSummary f = Inr s) \<longleftrightarrow> summary_printable f"
proof -
  let ?o = "field_options f"
  have t: "(\<exists>s. map_sum id g (template (get_prop opts k)) = Inr s) \<longleftrightarrow> printable_prop opts k"
    for g :: "string \<Rightarrow> string" and opts k
    using template_returns [of opts k] by (cases "template (get_prop opts k)") auto
  have three: "(\<exists>r. map_result id [a, b, c] = Inr r)
                 \<longleftrightarrow> (\<exists>x. a = Inr x) \<and> (\<exists>y. b = Inr y) \<and> (\<exists>z. c = Inr z)"
    for a b c :: "error + string option"
    by (cases a; cases b; cases c) simp_all
  have two: "(\<exists>r. map_result id [a, b] = Inr r) \<longleftrightarrow> (\<exists>x. a = Inr x) \<and> (\<exists>y. b = Inr y)"
    for a b :: "error + string option"
    by (cases a; cases b) simp_all
  have m: "(\<exists>s. map_sum id g r = Inr s) \<longleftrightarrow> (\<exists>x. r = Inr x)"
    for g :: "string option list \<Rightarrow> string" and r
    by (cases r) auto
  consider "field_type f = ''formula''" | "field_type f = ''rollup''"
    | "field_type f = ''multipleLookupValues''" | "field_type f = ''count''"
    | "field_type f \<notin> {''formula'', ''rollup'', ''multipleLookupValues'', ''count''}"
    by blast
  then show ?thesis
  proof cases
    case 1
    then show ?thesis
      using t [of _ ?o "''formula''"] falsy_printable_prop [of ?o "''formula''"]
      by (simp add: configSummary_def summary_printable_def Let_def)
  next
    case 2
    then show ?thesis
      unfolding configSummary_def summary_printable_def Let_def
      by (simp add: m three summary_line_returns del: map_result.simps)
  next
    case 3
    then show ?thesis
      unfolding configSummary_def summary_printable_def Let_def
      by (simp add: m two summary_line_returns del: map_result.simps)
  next
    case 4
    then show ?thesis
      using t [of _ ?o "''recordLinkFieldId''"] falsy_printable_prop [of ?o "''recordLinkFieldId''"]
      by (simp add: configSummary_def summary_printable_def Let_def)
  next
    case 5
    then show ?thesis
      by (simp add: configSummary_def summary_printable_def Let_def)
  qed
qed

lemma map_sum_id_Inr: "map_sum id g r = Inr s \<longleftrightarrow> (\<exists>x. r = Inr x \<and> s = g x)"
  by (cases r) auto




text \<open>The builder returns exactly when the summary is computed, and throws otherwise.\<close>

lemma buildManualInstructions_returns:
  "(\<exists>ins. buildManualInstructions f = Inr ins) \<longleftrightarrow> summary_printable f"
  using configSummary_returns [of f]
  by (cases "configSummary f") (auto simp add: buildManualInstructions_def)

lemma buildManualInstructions_throws:
  "buildManualInstructions
     (mk_field ''fldF'' ''F'' ''formula'' (Some (JObj [(''formula'', JObj [(''toString'', JNum 1)])])))
   = Inl TypeError"
  by (simp add: buildManualInstructions_def configSummary_def mk_field_def template_def)



section \<open>Properties of the relay\<close>

lemma headers_get_present: "(n, v) \<in> set hs \<Longrightarrow> headers_get hs n \<noteq> None"
proof -
  assume "(n, v) \<in> set hs"
  then have "filter (\<lambda>h. map to_lower_char (fst h) = map to_lower_char n) hs \<noteq> []"
    by (force simp add: filter_empty_conv)
  then show ?thesis
    by (cases "filter (\<lambda>h. map to_lower_char (fst h) = map to_lower_char n) hs")
       (simp_all add: headers_get_def)
qed

lemma headers_get_Nil: "headers_get [] n = None"
  by (simp add: headers_get_def)

lemma jsonResponse_acao:
  "headers_get (resp_headers (jsonResponse m st origin)) ''Access-Control-Allow-Origin'' \<noteq> None"
  by (rule headers_get_present [where v = origin]) (simp add: jsonResponse_def)

lemma forward_acao:
  "headers_get (resp_headers (snd (forward pf r origin url m))) ''Access-Control-Allow-Origin''
     \<noteq> None"
proof (cases "\<exists>st b. upstream pf (hd (fst (forward pf r origin url m))) = Fetched st b
                \<and> response_accepts st")
  case True
  then have "(''Access-Control-Allow-Origin'', if origin = [] then ''*'' else origin)
               \<in> set (resp_headers (snd (forward pf r origin url m)))"
    by (auto simp add: forward_def Let_def)
  then show ?thesis by (rule headers_get_present)
next
  case False
  then have "\<exists>msg. snd (forward pf r origin url m) = jsonResponse msg 502 origin"
    by (auto simp add: forward_def Let_def split: upstream_outcome.splits)
  then obtain msg where "snd (forward pf r origin url m) = jsonResponse msg 502 origin" ..
  then show ?thesis using jsonResponse_acao [of msg 502 origin] by simp
qed

lemma preflight_acao:
  "headers_get (resp_headers (handlePreflight allowed r)) ''Access-Control-Allow-Origin'' = None
    \<longleftrightarrow> \<not> isOriginAllowed allowed (or_else (headers_get (req_headers r) ''Origin'') [])"
proof -
  have "headers_get ((''Access-Control-Allow-Origin'', v) # hs) ''Access-Control-Allow-Origin''
          \<noteq> None" for v hs
    by (simp add: headers_get_def)
  then show ?thesis
    by (simp add: handlePreflight_def Let_def headers_get_Nil)
qed

lemma jsonResponse_acao_ex:
  "\<exists>y. headers_get (resp_headers (jsonResponse m st origin)) ''Access-Control-Allow-Origin''
         = Some y"
  using jsonResponse_acao [of m st origin] by auto

lemma forward_acao_ex:
  "\<exists>y. headers_get (resp_headers (snd (forward pf r origin url m)))
          ''Access-Control-Allow-Origin'' = Some y"
  using forward_acao [of pf r origin url m] by auto

lemma example_headers:
  "headers_get (req_headers preflight_request) ''X-Airtable-Target-Url'' = None"
  "headers_get (req_headers preflight_request) ''Origin'' = Some ''https://example.github.io''"
  "headers_get (req_headers unnamed_method_request) ''X-Airtable-Method'' = None"
  "headers_get (req_headers unnamed_method_request) ''Authorization'' = None"
  "headers_get (req_headers unnamed_method_request) ''Origin'' = Some ''https://example.github.io''"
  "headers_get (req_headers unnamed_method_request) ''X-Airtable-Target-Url''
     = Some ''https://api.airtable.com/v0/meta/bases/app1/tables''"
  "headers_get (req_headers foreign_target_request) ''X-Airtable-Target-Url''
     = Some ''https://evil.example/v0''"
  "headers_get (req_headers foreign_target_request) ''Origin'' = Some ''https://example.github.io''"
  by (simp_all add: preflight_request_def unnamed_method_request_def foreign_target_request_def
        headers_get_def to_lower_char_def)

text \<open>
  C3, as stated, fails: a preflight carries no \<^verbatim>\<open>X-Airtable-Target-Url\<close> header and
  the relay answers it with status 204, which is not an error status.
\<close>

theorem preflight_without_target_gets_204:
  "headers_get (req_headers preflight_request) ''X-Airtable-Target-Url'' = None
   \<and> resp_status (snd (fetch example_platform preflight_request)) = 204"
  by (simp add: example_headers fetch_def worker_fetch_def handlePreflight_def or_else_def
        isOriginAllowed_def ALLOWED_ORIGINS_def)
    (simp add: preflight_request_def)

text \<open>
  C3, amended. A request whose \<^verbatim>\<open>X-Airtable-Target-Url\<close> header is missing or does not
  start with \<^verbatim>\<open>https://api.airtable.com/\<close> is never forwarded upstream; when it is not an
  \<^verbatim>\<open>OPTIONS\<close> request, the relay answers with the error status 405, 403 or 400, and when
  it is, with the preflight's 204, or 403 when the origin is not allowed.
\<close>

theorem bad_target_never_forwarded:
  assumes "\<forall>u. headers_get (req_headers r) ''X-Airtable-Target-Url'' = Some u
             \<longrightarrow> \<not> starts_with u ''https://api.airtable.com/''"
  shows "fst (worker_fetch allowed pf r) = []
         \<and> (req_method r \<noteq> ''OPTIONS'' \<longrightarrow>
              resp_status (snd (worker_fetch allowed pf r)) \<in> {400, 403, 405})
         \<and> (req_method r = ''OPTIONS'' \<longrightarrow>
              resp_status (snd (worker_fetch allowed pf r))
                = (if isOriginAllowed allowed (or_else (headers_get (req_headers r) ''Origin'') [])
                   then 204 else 403))"
  using assms
  by (auto simp add: worker_fetch_def Let_def jsonResponse_def handlePreflight_def
        split: option.splits)

theorem bad_target_never_forwarded_witness:
  "headers_get (req_headers foreign_target_request) ''X-Airtable-Target-Url''
     = Some ''https://evil.example/v0''
   \<and> \<not> starts_with ''https://evil.example/v0'' ''https://api.airtable.com/''
   \<and> req_method foreign_target_request \<noteq> ''OPTIONS''
   \<and> fst (worker_fetch ALLOWED_ORIGINS example_platform foreign_target_request) = []
   \<and> resp_status (snd (worker_fetch ALLOWED_ORIGINS example_platform foreign_target_request))
       \<in> {400, 403, 405}"
proof -
  have h: "\<forall>u. headers_get (req_headers foreign_target_request) ''X-Airtable-Target-Url'' = Some u
             \<longrightarrow> \<not> starts_with u ''https://api.airtable.com/''"
    by (simp add: example_headers starts_with_def)
  have m: "req_method foreign_target_request \<noteq> ''OPTIONS''"
    by (simp add: foreign_target_request_def)
  show ?thesis
    using m bad_target_never_forwarded [OF h, of ALLOWED_ORIGINS example_platform]
    by (simp add: example_headers starts_with_def)
qed

text \<open>
  C8, as stated, fails: a \<^verbatim>\<open>POST\<close> with a valid target and no \<^verbatim>\<open>X-Airtable-Method\<close>
  header is forwarded, as an upstream \<^verbatim>\<open>POST\<close>.
\<close>

theorem missing_method_header_is_forwarded:
  "req_method unnamed_method_request \<noteq> ''OPTIONS''
   \<and> headers_get (req_headers unnamed_method_request) ''X-Airtable-Method'' = None
   \<and> fetch example_platform unnamed_method_request
       = ([\<lparr> up_url = ''https://api.airtable.com/v0/meta/bases/app1/tables'',
              up_method = ''POST'',
              up_headers = [(''Content-Type'', ''application/json'')],
              up_body = Some ''{}'' \<rparr>],
          \<lparr> resp_status = 200,
            resp_headers =
              [(''Content-Type'', ''application/json''),
               (''Access-Control-Allow-Origin'', ''https://example.github.io''),
               (''Access-Control-Allow-Methods'', ''POST, OPTIONS''),
               (''Access-Control-Allow-Headers'', ALLOW_HEADERS)],
            resp_body = TextBody ''{}'' \<rparr>)"
  by (simp add: example_headers fetch_def worker_fetch_def forward_def or_else_def
        isOriginAllowed_def ALLOWED_ORIGINS_def starts_with_def example_platform_def
        response_accepts_def to_upper_char_def)
    (simp add: unnamed_method_request_def)

text \<open>
  C8, amended. A request other than \<^verbatim>\<open>OPTIONS\<close> is rejected with the error status 405,
  403 or 400 and not forwarded when its method is not \<^verbatim>\<open>POST\<close> or it has no
  \<^verbatim>\<open>X-Airtable-Target-Url\<close> header. The \<^verbatim>\<open>X-Airtable-Method\<close> header is optional: a
  \<^verbatim>\<open>POST\<close> from an allowed origin with a target under the fixed origin and no method
  header is forwarded to that target as a \<^verbatim>\<open>POST\<close>.
\<close>

theorem post_and_target_required_method_optional:
  "(req_method r \<noteq> ''OPTIONS''
      \<and> (req_method r \<noteq> ''POST'' \<or> headers_get (req_headers r) ''X-Airtable-Target-Url'' = None)
    \<longrightarrow> fst (worker_fetch allowed pf r) = []
        \<and> resp_status (snd (worker_fetch allowed pf r)) \<in> {400, 403, 405})
   \<and> (req_method r = ''POST''
      \<and> isOriginAllowed allowed (or_else (headers_get (req_headers r) ''Origin'') [])
      \<and> headers_get (req_headers r) ''X-Airtable-Target-Url'' = Some u
      \<and> starts_with u ''https://api.airtable.com/''
      \<and> headers_get (req_headers r) ''X-Airtable-Method'' = None
    \<longrightarrow> map up_url (fst (worker_fetch allowed pf r)) = [u]
        \<and> map up_method (fst (worker_fetch allowed pf r)) = [''POST''])"
  by (auto simp add: worker_fetch_def Let_def jsonResponse_def forward_def or_else_def
        starts_with_def split: option.splits)

theorem post_and_target_required_method_optional_witness:
  "req_method unnamed_method_request = ''POST''
   \<and> isOriginAllowed ALLOWED_ORIGINS
        (or_else (headers_get (req_headers unnamed_method_request) ''Origin'') [])
   \<and> starts_with ''https://api.airtable.com/v0/meta/bases/app1/tables''
        ''https://api.airtable.com/''
   \<and> map up_method (fst (worker_fetch ALLOWED_ORIGINS example_platform unnamed_method_request))
       = [''POST'']"
  using post_and_target_required_method_optional
    [of unnamed_method_request ALLOWED_ORIGINS example_platform
       "''https://api.airtable.com/v0/meta/bases/app1/tables''"]
  by (simp add: example_headers isOriginAllowed_def ALLOWED_ORIGINS_def starts_with_def)
    (simp add: unnamed_method_request_def)

text \<open>
  C10. The response to a request lacks the \<^verbatim>\<open>Access-Control-Allow-Origin\<close> header exactly
  when the request is an \<^verbatim>\<open>OPTIONS\<close> preflight from an origin that is not allowed. So
  every response to a request other than \<^verbatim>\<open>OPTIONS\<close> carries the header: the forwarded
  answer, the rejection of the method, of the origin and of the target, and the failure
  of the upstream fetch.
\<close>

theorem every_answer_carries_allow_origin:
  "headers_get (resp_headers (snd (worker_fetch allowed pf r))) ''Access-Control-Allow-Origin''
     = None
   \<longleftrightarrow> req_method r = ''OPTIONS''
       \<and> \<not> isOriginAllowed allowed (or_else (headers_get (req_headers r) ''Origin'') [])"
  by (simp add: worker_fetch_def Let_def jsonResponse_acao_ex forward_acao_ex preflight_acao
        split: option.splits)

theorem every_answer_carries_allow_origin_witness:
  "req_method foreign_target_request \<noteq> ''OPTIONS''
   \<and> headers_get
        (resp_headers (snd (worker_fetch ALLOWED_ORIGINS example_platform foreign_target_request)))
        ''Access-Control-Allow-Origin'' \<noteq> None"
  using every_answer_carries_allow_origin
    [of ALLOWED_ORIGINS example_platform foreign_target_request]
  by (simp add: foreign_target_request_def)

section \<open>Properties of the first pass\<close>

lemma json_clone_id: "json_clone v = v"
proof (induction v)
  case (JArr xs)
  then show ?case by (simp add: map_idI)
next
  case (JObj kvs)
  have "map (\<lambda>kv. (fst kv, json_clone (snd kv))) kvs = map (\<lambda>kv. kv) kvs"
  proof (rule map_cong [OF refl])
    fix kv assume "kv \<in> set kvs"
    then have "json_clone (snd kv) = snd kv"
      by (rule JObj.IH [OF _ snds.intros])
    then show "(fst kv, json_clone (snd kv)) = kv" by (cases kv) simp
  qed
  then show ?case by simp
qed simp_all

lemma map_result_Cons_Inr:
  "map_result f (x # xs) = Inr zs \<longleftrightarrow>
     (\<exists>y ys. zs = y # ys \<and> f x = Inr y \<and> map_result f xs = Inr ys)"
  by (auto split: sum.splits)

lemma map_result_Inr_iff:
  "map_result f xs = Inr ys \<longleftrightarrow> map f xs = map Inr ys"
proof (induction xs arbitrary: ys)
  case Nil
  then show ?case by auto
next
  case (Cons x xs)
  show ?case
  proof (cases ys)
    case Nil
    then show ?thesis by (simp add: map_result_Cons_Inr del: map_result.simps)
  next
    case (Cons y ys')
    then show ?thesis using Cons.IH [of ys']
      by (simp add: map_result_Cons_Inr del: map_result.simps)
  qed
qed

lemma map_result_total:
  "(\<forall>x\<in>set xs. \<exists>y. f x = Inr y) \<Longrightarrow> \<exists>ys. map_result f xs = Inr ys"
proof (induction xs)
  case Nil
  then show ?case by simp
next
  case (Cons x xs)
  then obtain y ys where "f x = Inr y" "map_result f xs = Inr ys" by auto
  then show ?case by simp
qed

lemma map_result_Inl:
  "x \<in> set xs \<Longrightarrow> f x = Inl e \<Longrightarrow> \<exists>e'. map_result f xs = Inl e'"
  by (induction xs) (auto split: sum.splits)

lemma clean_choice_Inr: "(\<exists>c. clean_choice ch = Inr c) \<longleftrightarrow> ch \<noteq> JNull"
  by (simp add: clean_choice_def)

lemma clean_choices_total:
  "(\<exists>cs. map_result clean_choice chs = Inr cs) \<longleftrightarrow> JNull \<notin> set chs"
proof
  assume "\<exists>cs. map_result clean_choice chs = Inr cs"
  then obtain cs where "map clean_choice chs = map Inr cs" by (auto simp add: map_result_Inr_iff)
  then have "\<forall>ch\<in>set chs. \<exists>c. clean_choice ch = Inr c"
    by (metis (no_types, lifting) imageE list.set_map image_eqI)
  then show "JNull \<notin> set chs" by (auto simp add: clean_choice_def split: if_splits)
next
  assume "JNull \<notin> set chs"
  then have "\<forall>ch\<in>set chs. \<exists>c. clean_choice ch = Inr c"
    by (auto simp add: clean_choice_def)
  then show "\<exists>cs. map_result clean_choice chs = Inr cs" by (rule map_result_total)
qed

lemma truthy_choices_object:
  "truthy (get_prop (Some v) k) \<Longrightarrow> \<exists>kvs. v = JObj kvs"
  by (cases v) simp_all

lemma clean_options_returns:
  "(\<exists>c. clean_options opts = Inr c) \<longleftrightarrow>
     (case get_prop (Some opts) ''choices'' of
        None \<Rightarrow> True
      | Some (JArr chs) \<Rightarrow> JNull \<notin> set chs
      | Some v \<Rightarrow> \<not> truthy (Some v))"
proof (cases "truthy (get_prop (Some opts) ''choices'')")
  case False
  then show ?thesis
    by (auto simp add: clean_options_def json_clone_id split: option.splits json.splits)
next
  case True
  then obtain kvs where o: "opts = JObj kvs" using truthy_choices_object by blast
  show ?thesis
  proof (cases "map_of kvs ''choices''")
    case None
    then show ?thesis using True o by simp
  next
    case (Some v)
    show ?thesis
    proof (cases "\<exists>chs. v = JArr chs")
      case True
      then obtain chs where v: "v = JArr chs" ..
      show ?thesis using clean_choices_total [of chs]
        by (auto simp add: clean_options_def json_clone_id o Some v split: sum.splits)
    next
      case False
      then show ?thesis using True o Some
        by (cases v) (auto simp add: clean_options_def json_clone_id)
    qed
  qed
qed

lemma get_prop_falsy: "\<not> truthy (Some v) \<Longrightarrow> get_prop (Some v) k = None"
  by (cases v) simp_all

lemma cleanField_returns:
  "(\<exists>cf. cleanField f = Inr cf) \<longleftrightarrow> choices_well_formed f"
proof (cases "field_options f")
  case None
  then show ?thesis by (simp add: cleanField_def choices_well_formed_def)
next
  case (Some opts)
  show ?thesis
  proof (cases "truthy (Some opts)")
    case False
    then show ?thesis using Some
      by (simp add: cleanField_def choices_well_formed_def get_prop_falsy)
  next
    case True
    have "(\<exists>cf. cleanField f = Inr cf) \<longleftrightarrow> (\<exists>c. clean_options opts = Inr c)"
      using Some True by (cases "clean_options opts") (simp_all add: cleanField_def)
    then show ?thesis using Some
      by (simp add: clean_options_returns choices_well_formed_def)
  qed
qed

text \<open>What the \<^verbatim>\<open>switch\<close> stores in a record, and when it returns.\<close>

lemma truthy_Some: "truthy v \<Longrightarrow> \<exists>y. v = Some y"
  by (cases v) simp_all

lemma decorate_fields:
  assumes "decorate c f cf = Inr cf'"
  shows "originalId cf' = originalId cf" "name cf' = name cf" "ftype cf' = ftype cf"
    "options cf' = options cf" "linkedTableName cf' = linkedTableName cf"
    "c \<noteq> Link \<Longrightarrow> prefersSingleRecordLink cf' = prefersSingleRecordLink cf"
    "c \<noteq> Link \<Longrightarrow> linkedTableId cf' = linkedTableId cf"
    "c = Link \<Longrightarrow> prefersSingleRecordLink cf' \<noteq> None"
    "c = Link \<Longrightarrow> linkedTableId cf' = get_prop (field_options f) ''linkedTableId''"
    "c = Manual \<Longrightarrow> \<exists>ins. buildManualInstructions f = Inr ins
       \<and> manualCellInstructions cf' = Some (cellInstructions ins)
       \<and> manualDescription cf' = Some (description ins)
       \<and> originalOptions cf' =
           (if truthy (field_options f) then field_options f else Some (JObj []))"
  using assms
  by (cases c; cases "buildManualInstructions f";
      auto simp add: decorate_def dest: truthy_Some)+

lemma manual_iff_type:
  "classifyField f = Manual
     \<longleftrightarrow> field_type f \<in> {''formula'', ''rollup'', ''multipleLookupValues'', ''count''}"
  by (auto simp add: classifyField_def NON_CREATABLE_TYPES_def)

lemma decorate_returns:
  "(\<exists>cf'. decorate (classifyField f) f cf = Inr cf') \<longleftrightarrow> summary_printable f"
proof (cases "classifyField f = Manual")
  case True
  then show ?thesis
    using buildManualInstructions_returns [of f]
    by (cases "buildManualInstructions f") (auto simp add: decorate_def)
next
  case False
  then have "summary_printable f"
    using manual_iff_type [of f] by (auto simp add: summary_printable_def Let_def)
  then show ?thesis using False
    by (cases "classifyField f") (simp_all add: decorate_def)
qed

text \<open>One field is normalized without an exception exactly when it is well formed so far.\<close>

lemma normalizeField_returns:
  "(\<exists>cf. normalizeField f = Inr cf) \<longleftrightarrow> choices_well_formed f \<and> summary_printable f"
  using cleanField_returns [of f] decorate_returns [of f]
  by (cases "cleanField f") (auto simp add: normalizeField_def)

lemma normalizeField_decorate:
  "normalizeField f = Inr cf \<Longrightarrow>
     \<exists>c. cleanField f = Inr c \<and> decorate (classifyField f) f c = Inr cf"
  by (auto simp add: normalizeField_def split: sum.splits)

lemma map_of_set_entry:
  "map_of (set_entry k v kvs) k' = (if k' = k then Some v else map_of kvs k')"
  by (induction kvs) auto

lemma clean_choice_entries:
  assumes "clean_choice ch = Inr c"
  shows "\<exists>es. c = JObj es
           \<and> map_of es ''name'' = get_prop (Some ch) ''name''
           \<and> map_of es ''color'' =
               (if truthy (get_prop (Some ch) ''color'') then get_prop (Some ch) ''color''
                else None)
           \<and> set (map fst es) \<subseteq> {''name'', ''color''}
           \<and> distinct (map fst es)"
  using assms
  by (auto simp add: clean_choice_def split: if_splits option.splits)

lemma map_result_nth:
  "map_result f xs = Inr ys \<Longrightarrow> length ys = length xs \<and> (\<forall>i<length xs. f (xs ! i) = Inr (ys ! i))"
proof -
  assume "map_result f xs = Inr ys"
  then have m: "map f xs = map Inr ys" by (simp add: map_result_Inr_iff)
  then have l: "length ys = length xs" by (metis length_map)
  moreover have "f (xs ! i) = Inr (ys ! i)" if "i < length xs" for i
    using m l that by (metis nth_map)
  ultimately show ?thesis by simp
qed

text \<open>
  C9. When the raw options hold a \<^verbatim>\<open>choices\<close> array (without \<^verbatim>\<open>null\<close> entries), the
  copy of the options in the clean field has, as \<^verbatim>\<open>choices\<close>, an array of the same
  length, in the same order; its entry for a raw choice is an object whose \<^verbatim>\<open>name\<close> is
  the raw choice's \<^verbatim>\<open>name\<close>, whose \<^verbatim>\<open>color\<close> is the raw choice's \<^verbatim>\<open>color\<close> when that is
  truthy and absent otherwise, and which has no other key: the choice's \<^verbatim>\<open>id\<close> is gone.
  These are the \<^verbatim>\<open>choices\<close> of the normalized record of the field, which exists unless the
  field is a manual one whose instructions cannot be built.
\<close>

theorem choices_keep_name_and_color:
  assumes "field_options f = Some (JObj kvs)"
    and "map_of kvs ''choices'' = Some (JArr chs)"
    and "JNull \<notin> set chs"
  shows "\<exists>chs'. length chs' = length chs
           \<and> (\<forall>i<length chs. \<exists>es. chs' ! i = JObj es
                \<and> map_of es ''name'' = get_prop (Some (chs ! i)) ''name''
                \<and> map_of es ''color'' =
                     (if truthy (get_prop (Some (chs ! i)) ''color'')
                      then get_prop (Some (chs ! i)) ''color'' else None)
                \<and> set (map fst es) \<subseteq> {''name'', ''color''}
                \<and> distinct (map fst es))
           \<and> (\<exists>c. cleanField f = Inr c \<and> get_prop (options c) ''choices'' = Some (JArr chs'))
           \<and> (\<forall>cf. normalizeField f = Inr cf \<longrightarrow>
                 get_prop (options cf) ''choices'' = Some (JArr chs'))
           \<and> ((\<exists>cf. normalizeField f = Inr cf) \<longleftrightarrow> summary_printable f)"
proof -
  obtain chs' where r: "map_result clean_choice chs = Inr chs'"
    using assms(3) clean_choices_total by blast
  then have co: "clean_options (JObj kvs) = Inr (JObj (set_entry ''choices'' (JArr chs') kvs))"
    using assms(2) by (simp add: clean_options_def json_clone_id)
  then obtain c where c: "cleanField f = Inr c"
      and o: "options c = Some (JObj (set_entry ''choices'' (JArr chs') kvs))"
    using assms(1) by (simp add: cleanField_def)
  have oc: "get_prop (options c) ''choices'' = Some (JArr chs')"
    by (simp add: o map_of_set_entry)
  have len: "length chs' = length chs"
    and nth: "\<forall>i<length chs. clean_choice (chs ! i) = Inr (chs' ! i)"
    using map_result_nth [OF r] by simp_all
  have entries: "\<forall>i<length chs. \<exists>es. chs' ! i = JObj es
                \<and> map_of es ''name'' = get_prop (Some (chs ! i)) ''name''
                \<and> map_of es ''color'' =
                     (if truthy (get_prop (Some (chs ! i)) ''color'')
                      then get_prop (Some (chs ! i)) ''color'' else None)
                \<and> set (map fst es) \<subseteq> {''name'', ''color''}
                \<and> distinct (map fst es)"
    using nth clean_choice_entries by blast
  have norm: "\<forall>cf. normalizeField f = Inr cf \<longrightarrow>
                 get_prop (options cf) ''choices'' = Some (JArr chs')"
  proof (intro allI impI)
    fix cf assume "normalizeField f = Inr cf"
    then have "decorate (classifyField f) f c = Inr cf"
      using c by (simp add: normalizeField_def)
    then have "options cf = options c" by (rule decorate_fields(4))
    then show "get_prop (options cf) ''choices'' = Some (JArr chs')" using oc by simp
  qed
  have "choices_well_formed f"
    using assms by (simp add: choices_well_formed_def)
  then have ret: "(\<exists>cf. normalizeField f = Inr cf) \<longleftrightarrow> summary_printable f"
    by (simp add: normalizeField_returns)
  have cl: "\<exists>c. cleanField f = Inr c \<and> get_prop (options c) ''choices'' = Some (JArr chs')"
    using c oc by blast
  show ?thesis
    by (intro exI [of _ chs'] conjI) (rule len, rule entries, rule cl, rule norm, rule ret)
qed

theorem choices_keep_name_and_color_witness:
  "field_options field_Status = Some (JObj [(''choices'', JArr status_choices)])
   \<and> map_of [(''choices'', JArr status_choices)] ''choices'' = Some (JArr status_choices)
   \<and> JNull \<notin> set status_choices
   \<and> summary_printable field_Status
   \<and> (\<exists>cf chs'. normalizeField field_Status = Inr cf
           \<and> get_prop (options cf) ''choices'' = Some (JArr chs')
           \<and> length chs' = length status_choices
           \<and> (\<forall>i<length status_choices. \<exists>es. chs' ! i = JObj es
                \<and> map_of es ''name'' = get_prop (Some (status_choices ! i)) ''name''
                \<and> map_of es ''color'' =
                     (if truthy (get_prop (Some (status_choices ! i)) ''color'')
                      then get_prop (Some (status_choices ! i)) ''color'' else None)
                \<and> set (map fst es) \<subseteq> {''name'', ''color''}
                \<and> distinct (map fst es)))"
proof -
  have h1: "field_options field_Status = Some (JObj [(''choices'', JArr status_choices)])"
    by (simp add: field_Status_def mk_field_def)
  have h2: "map_of [(''choices'', JArr status_choices)] ''choices'' = Some (JArr status_choices)"
    by simp
  have h3: "JNull \<notin> set status_choices"
    by (simp add: status_choices_def)
  have h4: "summary_printable field_Status"
    by (simp add: summary_printable_def field_Status_def mk_field_def)
  have "\<exists>cf chs'. normalizeField field_Status = Inr cf
           \<and> get_prop (options cf) ''choices'' = Some (JArr chs')
           \<and> length chs' = length status_choices
           \<and> (\<forall>i<length status_choices. \<exists>es. chs' ! i = JObj es
                \<and> map_of es ''name'' = get_prop (Some (status_choices ! i)) ''name''
                \<and> map_of es ''color'' =
                     (if truthy (get_prop (Some (status_choices ! i)) ''color'')
                      then get_prop (Some (status_choices ! i)) ''color'' else None)
                \<and> set (map fst es) \<subseteq> {''name'', ''color''}
                \<and> distinct (map fst es))"
    using h4 choices_keep_name_and_color [OF h1 h2 h3] by blast
  then show ?thesis using h1 h2 h3 h4 by blast
qed

text \<open>What the first pass stores in a record.\<close>

lemma cleanField_fields:
  assumes "cleanField f = Inr cf"
  shows "originalId cf = field_id f" "name cf = field_name f" "ftype cf = field_type f"
    "linkedTableId cf = None" "prefersSingleRecordLink cf = None" "manualType cf = None"
    "manualDescription cf = None" "manualCellInstructions cf = None" "originalOptions cf = None"
    "linkedTableName cf = Value None"
  using assms by (auto simp add: cleanField_def split: sum.splits)

lemma normalizeField_fields:
  assumes "normalizeField f = Inr cf"
  shows "originalId cf = field_id f" "name cf = field_name f" "ftype cf = field_type f"
    "linkedTableName cf = Value None"
    "prefersSingleRecordLink cf = None \<longleftrightarrow> classifyField f \<noteq> Link"
    "linkedTableId cf =
       (if classifyField f = Link then get_prop (field_options f) ''linkedTableId'' else None)"
    "classifyField f = Manual \<Longrightarrow> \<exists>ins. buildManualInstructions f = Inr ins
       \<and> manualCellInstructions cf = Some (cellInstructions ins)
       \<and> manualDescription cf = Some (description ins)
       \<and> originalOptions cf =
           (if truthy (field_options f) then field_options f else Some (JObj []))"
proof -
  obtain c where c: "cleanField f = Inr c" and d: "decorate (classifyField f) f c = Inr cf"
    using normalizeField_decorate [OF assms] by blast
  note cl = cleanField_fields [OF c]
  note de = decorate_fields [OF d]
  show "originalId cf = field_id f" "name cf = field_name f" "ftype cf = field_type f"
    "linkedTableName cf = Value None"
    using cl de by simp_all
  show "prefersSingleRecordLink cf = None \<longleftrightarrow> classifyField f \<noteq> Link"
    using cl(5) de(6,8) by (cases "classifyField f = Link") simp_all
  show "linkedTableId cf =
       (if classifyField f = Link then get_prop (field_options f) ''linkedTableId'' else None)"
    using cl(4) de(7,9) by (cases "classifyField f = Link") simp_all
  show "classifyField f = Manual \<Longrightarrow> \<exists>ins. buildManualInstructions f = Inr ins
       \<and> manualCellInstructions cf = Some (cellInstructions ins)
       \<and> manualDescription cf = Some (description ins)
       \<and> originalOptions cf =
           (if truthy (field_options f) then field_options f else Some (JObj []))"
    by (rule de(10))
qed

text \<open>The loop appends, to each array, the records of the fields of its category.\<close>

lemma part_push: "part c (push c' cf ps) = (if c = c' then part c ps @ [cf] else part c ps)"
  by (cases c; cases c') (simp_all add: part_def push_def)

lemma process_fields_parts:
  "process_fields ps fs = Inr ps' \<Longrightarrow>
     map Inr (part c ps') = map Inr (part c ps) @ map normalizeField (filter (\<lambda>f. classifyField f = c) fs)"
proof (induction fs arbitrary: ps)
  case Nil
  then show ?case by simp
next
  case (Cons f fs)
  then obtain cf where cf: "normalizeField f = Inr cf"
      and r: "process_fields (push (classifyField f) cf ps) fs = Inr ps'"
    by (auto split: sum.splits)
  show ?case using Cons.IH [OF r] cf by (simp add: part_push)
qed

lemma process_fields_total:
  "(\<forall>f\<in>set fs. well_formed f) \<Longrightarrow> \<exists>ps'. process_fields ps fs = Inr ps'"
proof (induction fs arbitrary: ps)
  case Nil
  then show ?case by simp
next
  case (Cons f fs)
  then have "choices_well_formed f \<and> summary_printable f" by (simp add: well_formed_def)
  then obtain cf where "normalizeField f = Inr cf"
    using normalizeField_returns [of f] by auto
  then show ?case using Cons by simp
qed

lemma category_of_normalizeField:
  "normalizeField f = Inr cf \<Longrightarrow> category_of cf = classifyField f"
  using normalizeField_fields(3,5) [of f cf]
  by (auto simp add: category_of_def classifyField_def)

lemma resolve_link_keeps:
  assumes "resolve_link m x = Inr y"
  shows "originalId y = originalId x" "name y = name x" "ftype y = ftype x"
    "options y = options x" "linkedTableId y = linkedTableId x"
    "prefersSingleRecordLink y = prefersSingleRecordLink x"
  using assms by (auto simp add: resolve_link_def map_sum_id_Inr)

lemma resolve_manual_keeps:
  "originalId (resolve_manual ts x) = originalId x" "name (resolve_manual ts x) = name x"
  "ftype (resolve_manual ts x) = ftype x" "options (resolve_manual ts x) = options x"
  "linkedTableId (resolve_manual ts x) = linkedTableId x"
  "prefersSingleRecordLink (resolve_manual ts x) = prefersSingleRecordLink x"
  "originalOptions (resolve_manual ts x) = originalOptions x"
  by (simp_all add: resolve_manual_def Let_def split: option.splits)

lemma category_of_resolve:
  "resolve_link m x = Inr y \<Longrightarrow> category_of y = category_of x"
  "category_of (resolve_manual ts x) = category_of x"
  by (simp_all add: category_of_def resolve_link_keeps resolve_manual_keeps)

lemma process_table_parts:
  assumes "process_table rt = Inr t"
  shows "map Inr (fields_of c t)
           = map normalizeField (filter (\<lambda>f. classifyField f = c) (table_fields rt))"
    and "tbl_originalId t = table_id rt" and "tbl_name t = table_name rt"
proof -
  obtain ps where ps: "process_fields no_fields (table_fields rt) = Inr ps"
      and t: "t = \<lparr> tbl_originalId = table_id rt, tbl_name = table_name rt,
            tbl_description = (case table_description rt of None \<Rightarrow> [] | Some d \<Rightarrow> d),
            primaryFieldId = table_primaryFieldId rt,
            creatableFields = p_creatable ps, linkFields = p_link ps, manualFields = p_manual ps,
            autoSystemFields = p_autoSystem ps, inverseLinkFields = p_inverseLink ps \<rparr>"
    using assms by (auto simp add: process_table_def split: sum.splits)
  have "fields_of c t = part c ps"
    by (cases c) (simp_all add: t fields_of_def part_def)
  moreover have "part c no_fields = []"
    by (cases c) (simp_all add: part_def no_fields_def)
  ultimately show "map Inr (fields_of c t)
           = map normalizeField (filter (\<lambda>f. classifyField f = c) (table_fields rt))"
    using process_fields_parts [OF ps, of c] by simp
  show "tbl_originalId t = table_id rt" "tbl_name t = table_name rt"
    by (simp_all add: t)
qed

lemma process_table_returns:
  assumes "\<forall>f\<in>set (table_fields rt). well_formed f"
  shows "\<exists>t. process_table rt = Inr t"
proof -
  obtain ps where "process_fields no_fields (table_fields rt) = Inr ps"
    using process_fields_total [OF assms] by blast
  then show ?thesis by (simp add: process_table_def)
qed

lemma first_pass_returns:
  "(\<forall>rt\<in>set raw. \<forall>f\<in>set (table_fields rt). well_formed f)
     \<Longrightarrow> \<exists>ts. first_pass raw = Inr ts"
  unfolding first_pass_def
  by (rule map_result_total) (simp add: process_table_returns)

lemma first_pass_nth:
  "first_pass raw = Inr ts \<Longrightarrow>
     length ts = length raw \<and> (\<forall>i<length raw. process_table (raw ! i) = Inr (ts ! i))"
  unfolding first_pass_def by (rule map_result_nth)

text \<open>The second pass, table by table.\<close>

lemma second_pass_nth:
  "second_pass ts = Inr ts' \<Longrightarrow>
     length ts' = length ts
     \<and> (\<forall>i<length ts. resolve_table (build_tableIdToName [] ts) ts (ts ! i) = Inr (ts' ! i))"
  unfolding second_pass_def by (rule map_result_nth)

lemma resolve_table_Inr:
  "resolve_table m all_tables t = Inr t' \<longleftrightarrow>
     (\<exists>lfs. map_result (resolve_link m) (linkFields t) = Inr lfs
        \<and> t' = t \<lparr> linkFields := lfs,
                    manualFields := map (resolve_manual all_tables) (manualFields t) \<rparr>)"
  by (simp add: resolve_table_def map_sum_id_Inr)

lemma map_result_list_all2:
  "map_result f xs = Inr ys \<Longrightarrow> list_all2 (\<lambda>y x. f x = Inr y) ys xs"
  using map_result_nth [of f xs ys] by (simp add: list_all2_conv_all_nth)

lemma fields_of_resolved:
  assumes "resolve_table m all_tables t = Inr t'"
  shows "list_all2
           (\<lambda>cf cf0. case c of Link \<Rightarrow> resolve_link m cf0 = Inr cf
                      | Manual \<Rightarrow> cf = resolve_manual all_tables cf0
                      | _ \<Rightarrow> cf = cf0)
           (fields_of c t') (fields_of c t)"
proof -
  obtain lfs where l: "map_result (resolve_link m) (linkFields t) = Inr lfs"
      and t': "t' = t \<lparr> linkFields := lfs,
                         manualFields := map (resolve_manual all_tables) (manualFields t) \<rparr>"
    using assms by (auto simp add: resolve_table_Inr)
  show ?thesis
    using map_result_list_all2 [OF l]
    by (cases c) (simp_all add: fields_of_def t' list_all2_map1 list.rel_refl)
qed

lemma process_table_fields:
  assumes "process_table rt = Inr t"
  shows "list_all2 (\<lambda>cf0 f. normalizeField f = Inr cf0)
           (fields_of c t) (filter (\<lambda>f. classifyField f = c) (table_fields rt))"
proof -
  let ?fs = "filter (\<lambda>f. classifyField f = c) (table_fields rt)"
  have m: "map Inr (fields_of c t) = map normalizeField ?fs"
    by (rule process_table_parts(1) [OF assms])
  have l: "length (fields_of c t) = length ?fs"
    using arg_cong [OF m, of length] by simp
  have "normalizeField (?fs ! j) = Inr (fields_of c t ! j)" if "j < length ?fs" for j
    using arg_cong [OF m, of "\<lambda>xs. xs ! j"] l that by simp
  then show ?thesis using l by (simp add: list_all2_conv_all_nth)
qed

lemma processSchema_Inr:
  "processSchema now raw bn = Inr out \<longleftrightarrow>
     (\<exists>ts ts'. first_pass raw = Inr ts \<and> second_pass ts = Inr ts' \<and> out =
          \<lparr> schema_name =
              (case bn of
                 None \<Rightarrow> ''Airtable Base''
               | Some n \<Rightarrow> if n = [] then ''Airtable Base'' else n),
            exportedAt = now,
            tableCount = length ts',
            tables = ts' \<rparr>)"
  by (cases "first_pass raw") (auto simp add: processSchema_def map_sum_id_Inr)

lemma processSchema_tables:
  "processSchema now raw bn = Inr out \<Longrightarrow>
     \<exists>ts. first_pass raw = Inr ts \<and> second_pass ts = Inr (tables out)"
  by (auto simp add: processSchema_Inr)

text \<open>The records of the output, by category.\<close>

lemma output_fields:
  assumes fp: "first_pass raw = Inr ts" and sp: "second_pass ts = Inr ts'"
    and i: "i < length raw"
  shows "list_all2 (\<lambda>cf f. \<exists>cf0. normalizeField f = Inr cf0
            \<and> (case c of Link \<Rightarrow> resolve_link (build_tableIdToName [] ts) cf0 = Inr cf
                | Manual \<Rightarrow> cf = resolve_manual ts cf0 | _ \<Rightarrow> cf = cf0))
          (fields_of c (ts' ! i))
          (filter (\<lambda>f. classifyField f = c) (table_fields (raw ! i)))"
proof -
  have len: "length ts = length raw" and pt: "process_table (raw ! i) = Inr (ts ! i)"
    using first_pass_nth [OF fp] i by simp_all
  have rt: "resolve_table (build_tableIdToName [] ts) ts (ts ! i) = Inr (ts' ! i)"
    using second_pass_nth [OF sp] i len by simp
  show ?thesis
    using fields_of_resolved [OF rt, of c] process_table_fields [OF pt, of c]
    by (rule list_all2_trans [rotated]) blast
qed

lemma filter_category_lengths:
  "length (filter (\<lambda>f. classifyField f = Creatable) fs)
   + length (filter (\<lambda>f. classifyField f = Link) fs)
   + length (filter (\<lambda>f. classifyField f = Manual) fs)
   + length (filter (\<lambda>f. classifyField f = AutoSystem) fs)
   + length (filter (\<lambda>f. classifyField f = InverseLink) fs) = length fs"
proof (induction fs)
  case Nil
  then show ?case by simp
next
  case (Cons f fs)
  then show ?case by (cases "classifyField f") simp_all
qed

lemma output_shape:
  assumes fp: "first_pass raw = Inr ts" and sp: "second_pass ts = Inr ts'"
    and i: "i < length raw"
  shows "map (\<lambda>cf. (originalId cf, name cf, ftype cf)) (fields_of c (ts' ! i))
         = map (\<lambda>f. (field_id f, field_name f, field_type f))
             (filter (\<lambda>f. classifyField f = c) (table_fields (raw ! i)))"
proof -
  have "list_all2 (\<lambda>cf f. (originalId cf, name cf, ftype cf) = (field_id f, field_name f, field_type f))
          (fields_of c (ts' ! i))
          (filter (\<lambda>f. classifyField f = c) (table_fields (raw ! i)))"
    using output_fields [OF fp sp i, of c]
  proof (rule list_all2_mono)
    fix cf f
    assume "\<exists>cf0. normalizeField f = Inr cf0
            \<and> (case c of Link \<Rightarrow> resolve_link (build_tableIdToName [] ts) cf0 = Inr cf
                | Manual \<Rightarrow> cf = resolve_manual ts cf0 | _ \<Rightarrow> cf = cf0)"
    then obtain cf0 where n: "normalizeField f = Inr cf0"
      and cf: "case c of Link \<Rightarrow> resolve_link (build_tableIdToName [] ts) cf0 = Inr cf
                | Manual \<Rightarrow> cf = resolve_manual ts cf0 | _ \<Rightarrow> cf = cf0" by blast
    have "originalId cf = originalId cf0 \<and> name cf = name cf0 \<and> ftype cf = ftype cf0"
      using cf by (cases c) (simp_all add: resolve_link_keeps resolve_manual_keeps)
    then show "(originalId cf, name cf, ftype cf) = (field_id f, field_name f, field_type f)"
      using normalizeField_fields(1-3) [OF n] by simp
  qed
  then show ?thesis
    by (simp add: list_all2_conv_all_nth list_eq_iff_nth_eq)
qed

lemma list_all2_set1: "list_all2 P xs ys \<Longrightarrow> x \<in> set xs \<Longrightarrow> \<exists>y\<in>set ys. P x y"
  by (induction rule: list_all2_induct) auto

lemma output_category:
  assumes fp: "first_pass raw = Inr ts" and sp: "second_pass ts = Inr ts'"
    and i: "i < length raw"
    and cf: "cf \<in> set (fields_of c (ts' ! i))"
  shows "category_of cf = c"
proof -
  let ?fs = "filter (\<lambda>f. classifyField f = c) (table_fields (raw ! i))"
  obtain f where f: "f \<in> set ?fs"
    and r: "\<exists>cf0. normalizeField f = Inr cf0
            \<and> (case c of Link \<Rightarrow> resolve_link (build_tableIdToName [] ts) cf0 = Inr cf
                | Manual \<Rightarrow> cf = resolve_manual ts cf0 | _ \<Rightarrow> cf = cf0)"
    using list_all2_set1 [OF output_fields [OF fp sp i, of c] cf] by blast
  then obtain cf0 where n: "normalizeField f = Inr cf0"
      and cf': "case c of Link \<Rightarrow> resolve_link (build_tableIdToName [] ts) cf0 = Inr cf
                | Manual \<Rightarrow> cf = resolve_manual ts cf0 | _ \<Rightarrow> cf = cf0" by blast
  have "category_of cf = category_of cf0"
    using cf' by (cases c) (simp_all add: category_of_resolve)
  also have "\<dots> = classifyField f" by (rule category_of_normalizeField [OF n])
  also have "\<dots> = c" using f by simp
  finally show ?thesis .
qed

text \<open>The second pass returns when the link fields have printable table identifiers.\<close>

lemma resolve_link_returns:
  "(\<exists>y. resolve_link m x = Inr y) \<longleftrightarrow> (\<exists>s. template (linkedTableId x) = Inr s)"
  by (cases "template (linkedTableId x)") (simp_all add: resolve_link_def)

lemma second_pass_returns:
  assumes fp: "first_pass raw = Inr ts"
    and wf: "\<forall>rt\<in>set raw. \<forall>f\<in>set (table_fields rt). well_formed f"
  shows "\<exists>ts'. second_pass ts = Inr ts'"
  unfolding second_pass_def
proof (rule map_result_total, rule ballI)
  fix t assume "t \<in> set ts"
  then obtain i where i: "i < length ts" and t: "ts ! i = t"
    by (auto simp add: in_set_conv_nth)
  have len: "length ts = length raw" and pt: "process_table (raw ! i) = Inr t"
    using first_pass_nth [OF fp] i t by auto
  have "\<exists>y. resolve_link (build_tableIdToName [] ts) cf = Inr y" if cf: "cf \<in> set (linkFields t)" for cf
  proof -
    have "cf \<in> set (fields_of Link t)" using cf by (simp add: fields_of_def)
    then obtain f where f: "f \<in> set (filter (\<lambda>f. classifyField f = Link) (table_fields (raw ! i)))"
        and n: "normalizeField f = Inr cf"
      using list_all2_set1 [OF process_table_fields [OF pt, of Link]] by blast
    have c: "classifyField f = Link" and m: "f \<in> set (table_fields (raw ! i))" using f by simp_all
    have "raw ! i \<in> set raw" using i len by simp
    then have "well_formed f" using wf m by blast
    then have "printable_prop (field_options f) ''linkedTableId''"
      using c by (simp add: well_formed_def)
    moreover have "linkedTableId cf = get_prop (field_options f) ''linkedTableId''"
      using normalizeField_fields(6) [OF n] c by simp
    ultimately show ?thesis
      using template_returns [of "field_options f" "''linkedTableId''"]
      by (simp add: resolve_link_returns)
  qed
  then obtain lfs where "map_result (resolve_link (build_tableIdToName [] ts)) (linkFields t) = Inr lfs"
    using map_result_total [of "linkFields t" "resolve_link (build_tableIdToName [] ts)"] by blast
  then show "\<exists>y. resolve_table (build_tableIdToName [] ts) ts t = Inr y"
    by (simp add: resolve_table_Inr)
qed

lemma processSchema_returns:
  assumes "\<forall>rt\<in>set raw. \<forall>f\<in>set (table_fields rt). well_formed f"
  shows "\<exists>out. processSchema now raw bn = Inr out"
proof -
  obtain ts where fp: "first_pass raw = Inr ts"
    using first_pass_returns [OF assms] by blast
  obtain ts' where "second_pass ts = Inr ts'"
    using second_pass_returns [OF fp assms] by blast
  then show ?thesis using fp by (simp add: processSchema_Inr)
qed

text \<open>
  C2. \<open>classifyField\<close> is a total function into the five categories. Whenever
  \<open>processSchema\<close> returns, its output has one table per raw table, and in each table the
  array of every category holds, in order, one record for each raw field of that category
  (with that field's id, name and type); the arrays of two different categories share no
  record, and their lengths add up to the number of raw fields. So no field is dropped,
  duplicated or placed twice. And \<open>processSchema\<close> does return when every field is well
  formed, as the fields of a base are.
\<close>

theorem partitions_cover_fields_once:
  "classifyField g \<in> {Creatable, Link, Manual, AutoSystem, InverseLink}
   \<and> ((\<forall>rt\<in>set raw. \<forall>f\<in>set (table_fields rt). well_formed f)
        \<longrightarrow> (\<exists>res. processSchema now raw bn = Inr res))
   \<and> (processSchema now raw bn = Inr out \<longrightarrow>
        length (tables out) = length raw
        \<and> (\<forall>i<length raw.
             (\<forall>c. map (\<lambda>cf. (originalId cf, name cf, ftype cf)) (fields_of c (tables out ! i))
                   = map (\<lambda>f. (field_id f, field_name f, field_type f))
                       (filter (\<lambda>f. classifyField f = c) (table_fields (raw ! i))))
             \<and> (\<forall>c c'. c \<noteq> c' \<longrightarrow>
                   set (fields_of c (tables out ! i)) \<inter> set (fields_of c' (tables out ! i)) = {})
             \<and> length (creatableFields (tables out ! i)) + length (linkFields (tables out ! i))
                 + length (manualFields (tables out ! i))
                 + length (autoSystemFields (tables out ! i))
                 + length (inverseLinkFields (tables out ! i))
               = length (table_fields (raw ! i))))"
proof (intro conjI impI)
  show "classifyField g \<in> {Creatable, Link, Manual, AutoSystem, InverseLink}"
    by (cases "classifyField g") simp_all
next
  assume "\<forall>rt\<in>set raw. \<forall>f\<in>set (table_fields rt). well_formed f"
  then show "\<exists>res. processSchema now raw bn = Inr res" by (rule processSchema_returns)
next
  assume p: "processSchema now raw bn = Inr out"
  obtain ts where fp: "first_pass raw = Inr ts" and sp: "second_pass ts = Inr (tables out)"
    using processSchema_tables [OF p] by blast
  show "length (tables out) = length raw"
    using first_pass_nth [OF fp] second_pass_nth [OF sp] by simp
next
  assume p: "processSchema now raw bn = Inr out"
  obtain ts where fp: "first_pass raw = Inr ts" and sp: "second_pass ts = Inr (tables out)"
    using processSchema_tables [OF p] by blast
  have "(\<forall>c. map (\<lambda>cf. (originalId cf, name cf, ftype cf)) (fields_of c (tables out ! i))
                   = map (\<lambda>f. (field_id f, field_name f, field_type f))
                       (filter (\<lambda>f. classifyField f = c) (table_fields (raw ! i))))
             \<and> (\<forall>c c'. c \<noteq> c' \<longrightarrow>
                   set (fields_of c (tables out ! i)) \<inter> set (fields_of c' (tables out ! i)) = {})
             \<and> length (creatableFields (tables out ! i)) + length (linkFields (tables out ! i))
                 + length (manualFields (tables out ! i))
                 + length (autoSystemFields (tables out ! i))
                 + length (inverseLinkFields (tables out ! i))
               = length (table_fields (raw ! i))" if i: "i < length raw" for i
  proof (intro conjI allI impI)
    fix c
    show "map (\<lambda>cf. (originalId cf, name cf, ftype cf)) (fields_of c (tables out ! i))
                   = map (\<lambda>f. (field_id f, field_name f, field_type f))
                       (filter (\<lambda>f. classifyField f = c) (table_fields (raw ! i)))"
      by (rule output_shape [OF fp sp i])
  next
    fix c c' :: category
    assume "c \<noteq> c'"
    show "set (fields_of c (tables out ! i)) \<inter> set (fields_of c' (tables out ! i)) = {}"
    proof (rule ccontr)
      assume "set (fields_of c (tables out ! i)) \<inter> set (fields_of c' (tables out ! i)) \<noteq> {}"
      then obtain cf where a: "cf \<in> set (fields_of c (tables out ! i))"
          and b: "cf \<in> set (fields_of c' (tables out ! i))"
        by blast
      have "category_of cf = c" by (rule output_category [OF fp sp i a])
      moreover have "category_of cf = c'" by (rule output_category [OF fp sp i b])
      ultimately show False using \<open>c \<noteq> c'\<close> by simp
    qed
  next
    have l: "length (fields_of c (tables out ! i))
              = length (filter (\<lambda>f. classifyField f = c) (table_fields (raw ! i)))" for c
      using arg_cong [OF output_shape [OF fp sp i, of c], of length] by simp
    show "length (creatableFields (tables out ! i)) + length (linkFields (tables out ! i))
                 + length (manualFields (tables out ! i))
                 + length (autoSystemFields (tables out ! i))
                 + length (inverseLinkFields (tables out ! i))
               = length (table_fields (raw ! i))"
      using l [of Creatable] l [of Link] l [of Manual] l [of AutoSystem] l [of InverseLink]
        filter_category_lengths [of "table_fields (raw ! i)"]
      by (simp add: fields_of_def)
  qed
  then show "\<forall>i<length raw.
             (\<forall>c. map (\<lambda>cf. (originalId cf, name cf, ftype cf)) (fields_of c (tables out ! i))
                   = map (\<lambda>f. (field_id f, field_name f, field_type f))
                       (filter (\<lambda>f. classifyField f = c) (table_fields (raw ! i))))
             \<and> (\<forall>c c'. c \<noteq> c' \<longrightarrow>
                   set (fields_of c (tables out ! i)) \<inter> set (fields_of c' (tables out ! i)) = {})
             \<and> length (creatableFields (tables out ! i)) + length (linkFields (tables out ! i))
                 + length (manualFields (tables out ! i))
                 + length (autoSystemFields (tables out ! i))
                 + length (inverseLinkFields (tables out ! i))
               = length (table_fields (raw ! i))"
    by (intro allI impI)
qed

lemma example_well_formed:
  "\<forall>rt\<in>set example_tables. \<forall>f\<in>set (table_fields rt). well_formed f"
  by code_simp

theorem partitions_cover_fields_once_witness:
  "list_all (\<lambda>rt. list_all well_formed (table_fields rt)) example_tables
   \<and> classifyField field_Owner \<in> {Creatable, Link, Manual, AutoSystem, InverseLink}
   \<and> (\<exists>out. processSchema ''2026-01-01T00:00:00.000Z'' example_tables None = Inr out
           \<and> length (tables out) = length example_tables
           \<and> (\<forall>i<length example_tables.
                (\<forall>c. map (\<lambda>cf. (originalId cf, name cf, ftype cf)) (fields_of c (tables out ! i))
                      = map (\<lambda>f. (field_id f, field_name f, field_type f))
                          (filter (\<lambda>f. classifyField f = c) (table_fields (example_tables ! i))))
                \<and> (\<forall>c c'. c \<noteq> c' \<longrightarrow>
                      set (fields_of c (tables out ! i)) \<inter> set (fields_of c' (tables out ! i)) = {})
                \<and> length (creatableFields (tables out ! i)) + length (linkFields (tables out ! i))
                    + length (manualFields (tables out ! i))
                    + length (autoSystemFields (tables out ! i))
                    + length (inverseLinkFields (tables out ! i))
                  = length (table_fields (example_tables ! i))))"
proof -
  let ?now = "''2026-01-01T00:00:00.000Z''"
  note h = example_well_formed
  have l: "list_all (\<lambda>rt. list_all well_formed (table_fields rt)) example_tables"
    using h by (simp add: list_all_iff)
  obtain out where p: "processSchema ?now example_tables None = Inr out"
    using partitions_cover_fields_once [of field_Owner example_tables ?now None] h by blast
  show ?thesis
    using l p partitions_cover_fields_once [of field_Owner example_tables ?now None out]
    by (intro conjI exI [of _ out]) simp_all
qed

section \<open>Properties of the resolution passes\<close>

lemma map_of_assign_name:
  "k \<noteq> ''__proto__'' \<Longrightarrow> map_of (assign_name m k' v) k = map_of ((k', v) # m) k"
  by (induction m) auto

lemma map_of_build_tableIdToName:
  "k \<noteq> ''__proto__'' \<Longrightarrow>
     map_of (build_tableIdToName m ts) k
       = map_of (rev (map (\<lambda>t. (tbl_originalId t, tbl_name t)) ts) @ m) k"
proof (induction ts arbitrary: m)
  case Nil
  then show ?case by simp
next
  case (Cons t ts)
  have "map_of (build_tableIdToName m (t # ts)) k
          = map_of (rev (map (\<lambda>t. (tbl_originalId t, tbl_name t)) ts)
                      @ assign_name m (tbl_originalId t) (tbl_name t)) k"
    using Cons.IH [OF Cons.prems] by simp
  also have "\<dots> = map_of (rev (map (\<lambda>t. (tbl_originalId t, tbl_name t)) ts)
                      @ (tbl_originalId t, tbl_name t) # m) k"
    using map_of_assign_name [OF Cons.prems, of m "tbl_originalId t" "tbl_name t"]
    by (simp add: map_add_def split: option.splits)
  finally show ?case by simp
qed

lemma map_of_pairs_find:
  "map_of (map (\<lambda>x. (key x, val x)) xs) k = map_option val (find (\<lambda>x. key x = k) xs)"
  by (induction xs) auto

lemma first_pass_ids:
  assumes "first_pass raw = Inr ts"
  shows "map (\<lambda>t. (tbl_originalId t, tbl_name t)) ts = map (\<lambda>rt. (table_id rt, table_name rt)) raw"
proof -
  have l: "length ts = length raw"
    and n: "\<forall>i<length raw. process_table (raw ! i) = Inr (ts ! i)"
    using first_pass_nth [OF assms] by simp_all
  show ?thesis
  proof (rule nth_equalityI)
    show "length (map (\<lambda>t. (tbl_originalId t, tbl_name t)) ts)
            = length (map (\<lambda>rt. (table_id rt, table_name rt)) raw)"
      using l by simp
  next
    fix i assume "i < length (map (\<lambda>t. (tbl_originalId t, tbl_name t)) ts)"
    then have i: "i < length raw" using l by simp
    then have "process_table (raw ! i) = Inr (ts ! i)" using n by simp
    then show "map (\<lambda>t. (tbl_originalId t, tbl_name t)) ts ! i
                 = map (\<lambda>rt. (table_id rt, table_name rt)) raw ! i"
      using i l process_table_parts(2,3) [of "raw ! i" "ts ! i"] by simp
  qed
qed

lemma tableIdToName_lookup:
  assumes fp: "first_pass raw = Inr ts" and k: "k \<noteq> ''__proto__''"
  shows "map_of (build_tableIdToName [] ts) k
           = map_option table_name (find (\<lambda>rt. table_id rt = k) (rev raw))"
proof -
  have "map_of (build_tableIdToName [] ts) k
          = map_of (rev (map (\<lambda>t. (tbl_originalId t, tbl_name t)) ts)) k"
    using map_of_build_tableIdToName [OF k, of "[]" ts] by simp
  also have "\<dots> = map_of (map (\<lambda>rt. (table_id rt, table_name rt)) (rev raw)) k"
    by (simp add: first_pass_ids [OF fp] rev_map)
  also have "\<dots> = map_option table_name (find (\<lambda>rt. table_id rt = k) (rev raw))"
    by (rule map_of_pairs_find)
  finally show ?thesis .
qed

lemma find_Some_set: "find P xs = Some x \<Longrightarrow> x \<in> set xs \<and> P x"
  by (induction xs) (auto split: if_splits)

lemma list_all2_nthD2:
  "list_all2 P xs ys \<Longrightarrow> j < length ys \<Longrightarrow> j < length xs \<and> P (xs ! j) (ys ! j)"
  by (simp add: list_all2_conv_all_nth)

lemma output_link_field:
  assumes fp: "first_pass raw = Inr ts" and sp: "second_pass ts = Inr ts'"
    and i: "i < length raw"
    and j: "j < length (filter (\<lambda>f. classifyField f = Link) (table_fields (raw ! i)))"
  shows "\<exists>cf0. normalizeField (filter (\<lambda>f. classifyField f = Link) (table_fields (raw ! i)) ! j) = Inr cf0
           \<and> resolve_link (build_tableIdToName [] ts) cf0 = Inr (linkFields (ts' ! i) ! j)
           \<and> j < length (linkFields (ts' ! i))"
  using list_all2_nthD2 [OF output_fields [OF fp sp i, of Link] j]
  by (auto simp add: fields_of_def)

lemma resolve_link_name:
  assumes "resolve_link m x = Inr y" and "linkedTableId x = Some (JStr tid)"
  shows "linkedTableName y =
           (if js_truthy (lookup_name m tid) then lookup_name m tid else Value (Some (JStr tid)))"
  using assms by (auto simp add: resolve_link_def template_def)

lemma example_returns:
  "processSchema now example_tables bn = Inr (projr (processSchema now example_tables bn))"
proof -
  obtain out where "processSchema now example_tables bn = Inr out"
    using processSchema_returns [OF example_well_formed] by blast
  then show ?thesis by simp
qed

lemma example_link_fields:
  "filter (\<lambda>f. classifyField f = Link) (table_fields (example_tables ! 1)) = [field_Owner]"
  by (simp add: example_tables_def table_A_def table_B_def field_Owner_def field_Total_def
        mk_field_def classifyField_def NON_CREATABLE_TYPES_def AUTO_SYSTEM_TYPES_def LINK_TYPE_def)

text \<open>
  C4. Take the \<open>j\<close>-th link field of the \<open>i\<close>-th table, with a string as its raw
  \<^verbatim>\<open>options.linkedTableId\<close>. In the output its \<^verbatim>\<open>linkedTableName\<close> is the name of the
  raw table with that id (the last one, should several share the id) when there is one,
  and the raw id itself otherwise. The table names are taken to be non-empty and the id
  not to be a property name of \<^verbatim>\<open>Object.prototype\<close>, as table names and ids of a base are:
  the code falls back with \<^verbatim>\<open>||\<close>, and it looks the id up in a plain object.
\<close>

theorem linkedTableName_resolved:
  assumes out: "processSchema now raw bn = Inr out"
    and i: "i < length raw"
    and j: "j < length (filter (\<lambda>f. classifyField f = Link) (table_fields (raw ! i)))"
    and tid: "get_prop (field_options (filter (\<lambda>f. classifyField f = Link) (table_fields (raw ! i)) ! j))
                ''linkedTableId'' = Some (JStr tid)"
    and key: "tid \<notin> set OBJECT_PROTOTYPE_KEYS"
    and names: "\<forall>rt\<in>set raw. table_name rt \<noteq> []"
  shows "linkedTableName (linkFields (tables out ! i) ! j)
           = Value (Some (JStr (case find (\<lambda>rt. table_id rt = tid) (rev raw) of
                                  Some rt \<Rightarrow> table_name rt
                                | None \<Rightarrow> tid)))"
proof -
  let ?f = "filter (\<lambda>f. classifyField f = Link) (table_fields (raw ! i)) ! j"
  obtain ts where fp: "first_pass raw = Inr ts" and sp: "second_pass ts = Inr (tables out)"
    using processSchema_tables [OF out] by blast
  obtain cf0 where n: "normalizeField ?f = Inr cf0"
    and lf: "resolve_link (build_tableIdToName [] ts) cf0 = Inr (linkFields (tables out ! i) ! j)"
    using output_link_field [OF fp sp i j] by blast
  have "?f \<in> set (filter (\<lambda>f. classifyField f = Link) (table_fields (raw ! i)))"
    using j by (rule nth_mem)
  then have c: "classifyField ?f = Link" by simp
  have lid: "linkedTableId cf0 = Some (JStr tid)"
    using normalizeField_fields(6) [OF n] c tid by simp
  note nm = resolve_link_name [OF lf lid]
  have p: "tid \<noteq> ''__proto__''" using key by (auto simp add: OBJECT_PROTOTYPE_KEYS_def)
  have m: "map_of (build_tableIdToName [] ts) tid
             = map_option table_name (find (\<lambda>rt. table_id rt = tid) (rev raw))"
    by (rule tableIdToName_lookup [OF fp p])
  show ?thesis
  proof (cases "find (\<lambda>rt. table_id rt = tid) (rev raw)")
    case None
    then have "lookup_name (build_tableIdToName [] ts) tid = Value None"
      using m key by (simp add: lookup_name_def)
    then show ?thesis using None nm by simp
  next
    case (Some rt)
    then have "rt \<in> set (rev raw)" using find_Some_set by fastforce
    then have "table_name rt \<noteq> []" using names by simp
    moreover have "lookup_name (build_tableIdToName [] ts) tid = Value (Some (JStr (table_name rt)))"
      using m Some by (simp add: lookup_name_def)
    ultimately show ?thesis using Some nm by simp
  qed
qed

theorem linkedTableName_resolved_witness:
  "(1::nat) < length example_tables
   \<and> filter (\<lambda>f. classifyField f = Link) (table_fields (example_tables ! 1)) = [field_Owner]
   \<and> get_prop (field_options field_Owner) ''linkedTableId'' = Some (JStr ''tblA'')
   \<and> ''tblA'' \<notin> set OBJECT_PROTOTYPE_KEYS
   \<and> list_all (\<lambda>rt. table_name rt \<noteq> []) example_tables
   \<and> find (\<lambda>rt. table_id rt = ''tblA'') (rev example_tables) = Some table_A
   \<and> linkedTableName
        (linkFields (tables (projr (processSchema ''2026-01-01T00:00:00.000Z'' example_tables None)) ! 1) ! 0)
       = Value (Some (JStr ''A''))"
proof -
  let ?now = "''2026-01-01T00:00:00.000Z''"
  have out: "processSchema ?now example_tables None
               = Inr (projr (processSchema ?now example_tables None))"
    by (rule example_returns)
  have i: "(1::nat) < length example_tables" by (simp add: example_tables_def)
  have j: "0 < length (filter (\<lambda>f. classifyField f = Link) (table_fields (example_tables ! 1)))"
    unfolding example_link_fields by simp
  have tid: "get_prop (field_options
                (filter (\<lambda>f. classifyField f = Link) (table_fields (example_tables ! 1)) ! 0))
                ''linkedTableId'' = Some (JStr ''tblA'')"
    unfolding example_link_fields by (simp add: field_Owner_def mk_field_def)
  have key: "''tblA'' \<notin> set OBJECT_PROTOTYPE_KEYS" by (simp add: OBJECT_PROTOTYPE_KEYS_def)
  have names: "\<forall>rt\<in>set example_tables. table_name rt \<noteq> []"
    by (simp add: example_tables_def table_A_def table_B_def)
  have f: "find (\<lambda>rt. table_id rt = ''tblA'') (rev example_tables) = Some table_A"
    by (simp add: example_tables_def table_A_def table_B_def)
  have n: "table_name table_A = ''A''" by (simp add: table_A_def)
  have o: "get_prop (field_options field_Owner) ''linkedTableId'' = Some (JStr ''tblA'')"
    by (simp add: field_Owner_def mk_field_def)
  have l: "list_all (\<lambda>rt. table_name rt \<noteq> []) example_tables"
    using names by (simp add: list_all_iff)
  have r: "linkedTableName
        (linkFields (tables (projr (processSchema ?now example_tables None)) ! 1) ! 0)
       = Value (Some (JStr ''A''))"
    using linkedTableName_resolved [OF out i j tid key names] by (simp add: f n)
  from i example_link_fields o key l f r show ?thesis by (intro conjI)
qed

lemma get_prop_clean_options:
  assumes "clean_options opts = Inr c" and "k \<noteq> ''choices''"
  shows "get_prop (Some c) k = get_prop (Some opts) k"
proof (cases "truthy (get_prop (Some opts) ''choices'')")
  case False
  then show ?thesis using assms by (simp add: clean_options_def json_clone_id)
next
  case True
  then obtain kvs where o: "opts = JObj kvs" using truthy_choices_object by blast
  then show ?thesis using assms True
    by (auto simp add: clean_options_def json_clone_id map_of_set_entry
          split: option.splits json.splits sum.splits)
qed

lemma normalizeField_options:
  assumes "normalizeField f = Inr cf" and "k \<noteq> ''choices''"
  shows "get_prop (options cf) k = get_prop (field_options f) k"
proof -
  obtain c where c: "cleanField f = Inr c" and d: "decorate (classifyField f) f c = Inr cf"
    using normalizeField_decorate [OF assms(1)] by blast
  have o: "options cf = options c" by (rule decorate_fields(4) [OF d])
  show ?thesis
  proof (cases "field_options f")
    case None
    then show ?thesis using c o by (auto simp add: cleanField_def)
  next
    case (Some opts)
    show ?thesis
    proof (cases "truthy (Some opts)")
      case False
      then show ?thesis using c o Some
        by (auto simp add: cleanField_def get_prop_falsy)
    next
      case True
      then obtain co where "clean_options opts = Inr co" and "options c = Some co"
        using c Some by (cases "clean_options opts") (auto simp add: cleanField_def)
      then show ?thesis using get_prop_clean_options [of opts co k] assms(2) o Some by simp
    qed
  qed
qed

text \<open>
  C7, as stated, fails: in the output for the example base, the link field \<^verbatim>\<open>Owner\<close> of
  table B still carries the raw identifier \<^verbatim>\<open>tblA\<close> of table A, as its \<^verbatim>\<open>linkedTableId\<close>
  and inside its copied options.
\<close>

theorem link_field_retains_raw_table_id:
  "table_id table_A = ''tblA''
   \<and> linkedTableId
        (hd (linkFields
          (tables (projr (processSchema ''2026-01-01T00:00:00.000Z'' example_tables None)) ! 1)))
       = Some (JStr ''tblA'')
   \<and> get_prop
        (options (hd (linkFields
          (tables (projr (processSchema ''2026-01-01T00:00:00.000Z'' example_tables None)) ! 1))))
        ''linkedTableId''
       = Some (JStr ''tblA'')"
proof (intro conjI)
  show "table_id table_A = ''tblA''" by (simp add: table_A_def)
  show "linkedTableId
        (hd (linkFields
          (tables (projr (processSchema ''2026-01-01T00:00:00.000Z'' example_tables None)) ! 1)))
       = Some (JStr ''tblA'')"
    by code_simp
  show "get_prop
        (options (hd (linkFields
          (tables (projr (processSchema ''2026-01-01T00:00:00.000Z'' example_tables None)) ! 1))))
        ''linkedTableId''
       = Some (JStr ''tblA'')"
    by code_simp
qed

text \<open>
  C7, amended. The normalizer adds the resolved name and keeps the raw identifiers: the
  \<open>j\<close>-th link field of the \<open>i\<close>-th table of the output has the raw
  \<^verbatim>\<open>options.linkedTableId\<close> as its \<^verbatim>\<open>linkedTableId\<close>, its copied options agree with the raw
  options on every key other than \<^verbatim>\<open>choices\<close>, and it has a truthy \<^verbatim>\<open>linkedTableName\<close>
  whenever the raw \<^verbatim>\<open>linkedTableId\<close> is truthy.
\<close>

theorem link_fields_keep_raw_table_id:
  assumes out: "processSchema now raw bn = Inr out"
    and i: "i < length raw"
    and j: "j < length (filter (\<lambda>f. classifyField f = Link) (table_fields (raw ! i)))"
  shows "linkedTableId (linkFields (tables out ! i) ! j)
           = get_prop (field_options (filter (\<lambda>f. classifyField f = Link) (table_fields (raw ! i)) ! j))
               ''linkedTableId''
         \<and> (\<forall>k. k \<noteq> ''choices'' \<longrightarrow>
               get_prop (options (linkFields (tables out ! i) ! j)) k
                 = get_prop (field_options (filter (\<lambda>f. classifyField f = Link) (table_fields (raw ! i)) ! j)) k)
         \<and> (truthy (get_prop (field_options (filter (\<lambda>f. classifyField f = Link) (table_fields (raw ! i)) ! j))
                ''linkedTableId'')
              \<longrightarrow> js_truthy (linkedTableName (linkFields (tables out ! i) ! j)))"
proof -
  let ?f = "filter (\<lambda>f. classifyField f = Link) (table_fields (raw ! i)) ! j"
  let ?m = "build_tableIdToName [] ts"
  obtain ts where fp: "first_pass raw = Inr ts" and sp: "second_pass ts = Inr (tables out)"
    using processSchema_tables [OF out] by blast
  obtain cf0 where n: "normalizeField ?f = Inr cf0"
    and lf: "resolve_link (build_tableIdToName [] ts) cf0 = Inr (linkFields (tables out ! i) ! j)"
    using output_link_field [OF fp sp i j] by blast
  have "?f \<in> set (filter (\<lambda>f. classifyField f = Link) (table_fields (raw ! i)))"
    using j by (rule nth_mem)
  then have c: "classifyField ?f = Link" by simp
  have lid: "linkedTableId cf0 = get_prop (field_options ?f) ''linkedTableId''"
    using normalizeField_fields(6) [OF n] c by simp
  have t: "truthy (linkedTableId cf0) \<longrightarrow> js_truthy (linkedTableName (linkFields (tables out ! i) ! j))"
    using lf by (auto simp add: resolve_link_def map_sum_id_Inr)
  show ?thesis
    using lid t normalizeField_options [OF n]
    by (simp add: resolve_link_keeps [OF lf])
qed

theorem link_fields_keep_raw_table_id_witness:
  "(1::nat) < length example_tables
   \<and> filter (\<lambda>f. classifyField f = Link) (table_fields (example_tables ! 1)) = [field_Owner]
   \<and> linkedTableId
        (linkFields (tables (projr (processSchema ''2026-01-01T00:00:00.000Z'' example_tables None)) ! 1) ! 0)
       = get_prop (field_options field_Owner) ''linkedTableId''
   \<and> get_prop
        (options (linkFields
          (tables (projr (processSchema ''2026-01-01T00:00:00.000Z'' example_tables None)) ! 1) ! 0))
        ''inverseLinkFieldId''
       = get_prop (field_options field_Owner) ''inverseLinkFieldId''"
proof -
  let ?now = "''2026-01-01T00:00:00.000Z''"
  have out: "processSchema ?now example_tables None
               = Inr (projr (processSchema ?now example_tables None))"
    by (rule example_returns)
  have i: "(1::nat) < length example_tables" by (simp add: example_tables_def)
  have j: "0 < length (filter (\<lambda>f. classifyField f = Link) (table_fields (example_tables ! 1)))"
    unfolding example_link_fields by simp
  have k: "''inverseLinkFieldId'' \<noteq> ''choices''" by simp
  have r: "linkedTableId
        (linkFields (tables (projr (processSchema ?now example_tables None)) ! 1) ! 0)
       = get_prop (field_options field_Owner) ''linkedTableId''
   \<and> get_prop
        (options (linkFields (tables (projr (processSchema ?now example_tables None)) ! 1) ! 0))
        ''inverseLinkFieldId''
       = get_prop (field_options field_Owner) ''inverseLinkFieldId''"
    using link_fields_keep_raw_table_id [OF out i j] k
    unfolding example_link_fields by simp
  from i example_link_fields r show ?thesis by (intro conjI) simp_all
qed

text \<open>
  The references of the manual fields. The second block tests \<^verbatim>\<open>f.linkedTableId\<close> on the
  link and the inverse-link fields, but only the case \<^verbatim>\<open>link\<close> of the first pass sets that
  property: an inverse-link record never has it, so a reference that goes through an
  inverse link is never looked up, whatever field it names.
\<close>

lemma first_pass_member:
  assumes "first_pass raw = Inr ts" and "t \<in> set ts"
  shows "\<exists>rt. process_table rt = Inr t"
proof -
  obtain i where "i < length ts" "ts ! i = t" using assms(2) by (auto simp add: in_set_conv_nth)
  then show ?thesis using first_pass_nth [OF assms(1)] by auto
qed

lemma inverse_links_have_no_linkedTableId:
  assumes fp: "first_pass raw = Inr ts" and t: "t \<in> set ts" and g: "g \<in> set (inverseLinkFields t)"
  shows "linkedTableId g = None"
proof -
  obtain rt where pt: "process_table rt = Inr t" using first_pass_member [OF fp t] by blast
  have "g \<in> set (fields_of InverseLink t)" using g by (simp add: fields_of_def)
  then obtain f where "f \<in> set (filter (\<lambda>f. classifyField f = InverseLink) (table_fields rt))"
      and n: "normalizeField f = Inr g"
    using list_all2_set1 [OF process_table_fields [OF pt, of InverseLink]] by blast
  then have "classifyField f = InverseLink" by simp
  then show ?thesis using normalizeField_fields(6) [OF n] by simp
qed

lemma replace_field_refs_skips:
  "(\<forall>g\<in>set fs. Some (JStr (originalId g)) = rid \<longrightarrow> \<not> truthy (linkedTableId g))
     \<Longrightarrow> replace_field_refs all_tables rid fid fs tx = tx"
  by (induction fs arbitrary: tx) (auto simp del: split_paired_All)

lemma resolve_fieldIdInLinkedTable_skips:
  "(\<forall>t\<in>set ts. \<forall>g\<in>set (linkFields t @ inverseLinkFields t).
       Some (JStr (originalId g)) = rid \<longrightarrow> \<not> truthy (linkedTableId g))
     \<Longrightarrow> resolve_fieldIdInLinkedTable all_tables rid fid ts tx = tx"
proof (induction ts arbitrary: tx)
  case Nil
  then show ?case by simp
next
  case (Cons t ts)
  have "replace_field_refs all_tables rid fid (linkFields t @ inverseLinkFields t) tx = tx"
    using Cons.prems by (intro replace_field_refs_skips) simp
  moreover have "resolve_fieldIdInLinkedTable all_tables rid fid ts tx = tx"
    using Cons.prems by (intro Cons.IH) simp
  ultimately show ?case by simp
qed

lemma inverse_link_reference_unresolved:
  assumes fp: "first_pass raw = Inr ts"
    and no_link: "\<forall>t\<in>set ts. \<forall>g\<in>set (linkFields t). Some (JStr (originalId g)) \<noteq> rid"
  shows "resolve_fieldIdInLinkedTable ts rid fid ts tx = tx"
proof (rule resolve_fieldIdInLinkedTable_skips, intro ballI impI)
  fix t g
  assume t: "t \<in> set ts" and g: "g \<in> set (linkFields t @ inverseLinkFields t)"
    and r: "Some (JStr (originalId g)) = rid"
  then have "g \<in> set (inverseLinkFields t)" using no_link by auto
  then have "linkedTableId g = None" by (rule inverse_links_have_no_linkedTableId [OF fp t])
  then show "\<not> truthy (linkedTableId g)" by simp
qed

text \<open>
  C5. The code misses what the claim says for a reference that goes through an inverse
  link. In the base with the lookup \<^verbatim>\<open>B names\<close> in table A, the link \<^verbatim>\<open>fldBs\<close> the lookup
  goes through is an inverse link, and the field \<^verbatim>\<open>fldNameB\<close> it names is the creatable
  field \<^verbatim>\<open>Name\<close> of table B. After the second pass both instruction texts of the lookup
  still say \<^verbatim>\<open>fldNameB\<close>: they are the texts of the first pass. The rollup \<^verbatim>\<open>Total\<close> of
  table B, which goes through the forward link \<^verbatim>\<open>fldOwner\<close>, has its reference
  \<^verbatim>\<open>fldScore\<close> replaced by the name of the field and of its table.
\<close>

theorem reference_through_inverse_link_stays_raw:
  "classifyField field_Bs = InverseLink
   \<and> \<not> isl (processSchema ''2026-01-01T00:00:00.000Z'' lookup_tables None)
   \<and> map (\<lambda>cf. (originalId cf, name cf))
       (creatableFields
         (tables (projr (processSchema ''2026-01-01T00:00:00.000Z'' lookup_tables None)) ! 1))
     = [(''fldNameB'', ''Name'')]
   \<and> map (\<lambda>cf. (originalId cf, originalOptions cf, manualDescription cf, manualCellInstructions cf))
       (manualFields
         (tables (projr (processSchema ''2026-01-01T00:00:00.000Z'' lookup_tables None)) ! 0))
     = [(''fldBNames'',
         Some (JObj [(''recordLinkFieldId'', JStr ''fldBs''),
                     (''fieldIdInLinkedTable'', JStr ''fldNameB'')]),
         Some (description_text ''Lookup'' ''Lookup field: fldNameB''),
         Some (cellInstructions_text ''Lookup''
                 (''Lookup field: fldNameB'' @ nl @ ''From linked record field: fldBs'')))]
   \<and> map (\<lambda>cf. (originalId cf, manualDescription cf, manualCellInstructions cf))
       (manualFields
         (tables (projr (processSchema ''2026-01-01T00:00:00.000Z'' lookup_tables None)) ! 1))
     = [(''fldTotal'',
         Some (description_text ''Rollup''
                 (''Summarize field: '' @ dq @ ''Score'' @ dq @ '' in '' @ dq @ ''A'' @ dq)),
         Some (cellInstructions_text ''Rollup''
                 (''Summarize field: '' @ dq @ ''Score'' @ dq @ '' in '' @ dq @ ''A'' @ dq @ nl
                    @ ''From linked record field: '' @ dq @ ''Owner'' @ dq @ '' field'')))]"
proof (intro conjI)
  show "classifyField field_Bs = InverseLink" by code_simp
  show "\<not> isl (processSchema ''2026-01-01T00:00:00.000Z'' lookup_tables None)" by code_simp
  show "map (\<lambda>cf. (originalId cf, name cf))
       (creatableFields
         (tables (projr (processSchema ''2026-01-01T00:00:00.000Z'' lookup_tables None)) ! 1))
     = [(''fldNameB'', ''Name'')]"
    by code_simp
  show "map (\<lambda>cf. (originalId cf, originalOptions cf, manualDescription cf, manualCellInstructions cf))
       (manualFields
         (tables (projr (processSchema ''2026-01-01T00:00:00.000Z'' lookup_tables None)) ! 0))
     = [(''fldBNames'',
         Some (JObj [(''recordLinkFieldId'', JStr ''fldBs''),
                     (''fieldIdInLinkedTable'', JStr ''fldNameB'')]),
         Some (description_text ''Lookup'' ''Lookup field: fldNameB''),
         Some (cellInstructions_text ''Lookup''
                 (''Lookup field: fldNameB'' @ nl @ ''From linked record field: fldBs'')))]"
    by code_simp
  show "map (\<lambda>cf. (originalId cf, manualDescription cf, manualCellInstructions cf))
       (manualFields
         (tables (projr (processSchema ''2026-01-01T00:00:00.000Z'' lookup_tables None)) ! 1))
     = [(''fldTotal'',
         Some (description_text ''Rollup''
                 (''Summarize field: '' @ dq @ ''Score'' @ dq @ '' in '' @ dq @ ''A'' @ dq)),
         Some (cellInstructions_text ''Rollup''
                 (''Summarize field: '' @ dq @ ''Score'' @ dq @ '' in '' @ dq @ ''A'' @ dq @ nl
                    @ ''From linked record field: '' @ dq @ ''Owner'' @ dq @ '' field'')))]"
    by code_simp
qed

end
